theory Spec2Isabelle
  imports Main "HOL-Library.Word" "HOL-Library.Char_ord" "HOL-Library.List_Lexorder"
begin

section \<open>Go values: panics, errors, strings\<close>

text \<open>
  A Go function either returns or panics. The only \<open>panic\<close> statement of \<open>synk.go\<close> is
  \<open>panic(err)\<close> in \<open>decodeResourceSetName\<close>, with the error of \<open>strconv.Atoi\<close>;
  writing through a \<open>nil\<close> pointer read from the status map would be the other way to
  panic.
\<close>

datatype numError = ErrSyntax | ErrRange

datatype panic = NumError numError | NilDereference

datatype 'a go = Panic panic | Return 'a

text \<open>
  Errors of the engine are only ever tested for \<open>nil\<close> and rendered with \<open>Error()\<close>,
  so an engine error is its message. \<open>errors.Wrap(err, m)\<close> renders as \<open>m: err\<close>.
\<close>

type_synonym error = string

definition errors_New :: "string \<Rightarrow> error" where
  "errors_New m = m"

definition errors_Wrap :: "error \<Rightarrow> string \<Rightarrow> error" where
  "errors_Wrap e m = m @ '': '' @ e"

text \<open>
  The verb \<open>%q\<close> is \<open>strconv.Quote\<close>: the string in double quotes; inside it a double
  quote and a backslash are escaped by a backslash, the control characters that have a
  letter are written with it (\<open>\\a \\b \\t \\n \\v \\f \\r\<close>), and the other control
  characters and DEL as \<open>\\x\<close> and two hexadecimal digits. Strings are sequences of bytes
  here. A byte from 128 on is kept as it is, which is what the library does with the
  encoding of a printable character; its escapes for an invalid encoding and for an
  unprintable character beyond ASCII need the tables of Unicode and are not modelled.
\<close>

definition hexDigit :: "nat \<Rightarrow> char" where
  "hexDigit d = ''0123456789abcdef'' ! d"

definition quoteByte :: "char \<Rightarrow> string" where
  "quoteByte c =
     (let n = (of_char c :: nat)
      in if c = CHR 0x22 \<or> c = CHR 0x5C then [CHR 0x5C, c]
         else if n = 7 then [CHR 0x5C, CHR ''a'']
         else if n = 8 then [CHR 0x5C, CHR ''b'']
         else if n = 9 then [CHR 0x5C, CHR ''t'']
         else if n = 10 then [CHR 0x5C, CHR ''n'']
         else if n = 11 then [CHR 0x5C, CHR ''v'']
         else if n = 12 then [CHR 0x5C, CHR ''f'']
         else if n = 13 then [CHR 0x5C, CHR ''r'']
         else if n < 32 \<or> n = 127 then
           [CHR 0x5C, CHR ''x'', hexDigit (n div 16), hexDigit (n mod 16)]
         else [c])"

definition quote :: "string \<Rightarrow> string" where
  "quote s = [CHR 0x22] @ concat (map quoteByte s) @ [CHR 0x22]"

definition errors_Wrapf_q :: "error \<Rightarrow> string \<Rightarrow> string \<Rightarrow> error" where
  \<comment> \<open>\<open>errors.Wrapf(err, m %q, a)\<close> with the format \<open>m\<close> ending in the verb\<close>
  "errors_Wrapf_q e m a = m @ quote a @ '': '' @ e"

subsection \<open>Decimal digits: \<open>%d\<close> and \<open>strconv.Atoi\<close>\<close>

definition isDigit :: "char \<Rightarrow> bool" where
  "isDigit c = (48 \<le> (of_char c :: nat) \<and> (of_char c :: nat) \<le> 57)"

definition isLower :: "char \<Rightarrow> bool" where
  "isLower c = (97 \<le> (of_char c :: nat) \<and> (of_char c :: nat) \<le> 122)"

definition digitChar :: "nat \<Rightarrow> char" where
  "digitChar d = ''0123456789'' ! d"

definition digitVal :: "char \<Rightarrow> nat" where
  "digitVal c = of_char c - 48"

fun showNat :: "nat \<Rightarrow> string" where
  "showNat n = (if n < 10 then [digitChar n] else showNat (n div 10) @ [digitChar (n mod 10)])"

declare showNat.simps [simp del]

text \<open>\<open>fmt.Sprintf("%d", i)\<close> for a signed integer.\<close>

definition showInt :: "int \<Rightarrow> string" where
  "showInt i = (if i < 0 then CHR ''-'' # showNat (nat (- i)) else showNat (nat i))"

definition digitsVal :: "string \<Rightarrow> nat" where
  "digitsVal ds = foldl (\<lambda>a c. 10 * a + digitVal c) 0 ds"

text \<open>
  \<open>strconv.Atoi\<close> on a platform whose \<open>int\<close> has 64 bits: an optional sign, then one or
  more decimal digits; \<open>ErrSyntax\<close> for anything else, \<open>ErrRange\<close> when the value does not
  fit.
\<close>

definition strconv_Atoi :: "string \<Rightarrow> numError + int" where
  "strconv_Atoi s =
     (let (neg, ds) =
            (case s of
               [] \<Rightarrow> (False, [])
             | c # r \<Rightarrow> if c = CHR ''-'' then (True, r)
                        else if c = CHR ''+'' then (False, r) else (False, s))
      in if ds = [] \<or> \<not> list_all isDigit ds then Inl ErrSyntax
         else let n = int (digitsVal ds)
              in if neg then (if n > 2 ^ 63 then Inl ErrRange else Inr (- n))
                 else (if n > 2 ^ 63 - 1 then Inl ErrRange else Inr n))"

section \<open>Names of versioned resource sets\<close>

type_synonym int32 = "32 word"

text \<open>\<open>resourceSetName\<close>: \<open>fmt.Sprintf("%s.v%d", s, v)\<close> with \<open>v\<close> an \<open>int32\<close>.\<close>

definition resourceSetName :: "string \<Rightarrow> int32 \<Rightarrow> string" where
  "resourceSetName s v = s @ ''.v'' @ showInt (sint v)"

text \<open>
  \<open>namePat\<close> is the regular expression \<open>^([a-z0-9]+)\.v([0-9]+)$\<close>. The relation
  \<open>namePat_matches\<close> is its meaning: the whole string is a non-empty run of \<open>[a-z0-9]\<close>,
  then \<open>.v\<close>, then a non-empty run of digits.
\<close>

definition inClass :: "char \<Rightarrow> bool" where
  "inClass c = (isLower c \<or> isDigit c)"

definition namePat_matches :: "string \<Rightarrow> string \<Rightarrow> string \<Rightarrow> bool" where
  "namePat_matches s b d =
     (s = b @ ''.v'' @ d \<and> b \<noteq> [] \<and> list_all inClass b \<and> d \<noteq> [] \<and> list_all isDigit d)"

text \<open>
  \<open>namePat.FindStringSubmatch(s)\<close>: the empty list when there is no match, else the
  whole match and the two groups. The dot is outside \<open>[a-z0-9]\<close>, so the first group is
  the longest prefix inside the class.
\<close>

definition FindStringSubmatch :: "string \<Rightarrow> string list" where
  "FindStringSubmatch s =
     (let b = takeWhile inClass s; r = dropWhile inClass s
      in case r of
           c1 # c2 # d \<Rightarrow>
             if b \<noteq> [] \<and> c1 = CHR ''.'' \<and> c2 = CHR ''v'' \<and> d \<noteq> [] \<and> list_all isDigit d
             then [s, b, d] else []
         | _ \<Rightarrow> [])"

definition decodeResourceSetName :: "string \<Rightarrow> (string \<times> int32 \<times> bool) go" where
  "decodeResourceSetName s =
     (case FindStringSubmatch s of
        [] \<Rightarrow> Return ('''', 0, False)
      | res \<Rightarrow>
          (case strconv_Atoi (res ! 2) of
             Inl err \<Rightarrow> Panic (NumError err)
           | Inr version \<Rightarrow> Return (res ! 1, word_of_int version, True)))"

section \<open>Data model\<close>

text \<open>\<open>metav1.OwnerReference\<close>; the two \<open>*bool\<close> fields are \<open>None\<close> when \<open>nil\<close>.\<close>

record ownerReference =
  or_APIVersion :: string
  or_Kind :: string
  or_Name :: string
  or_UID :: string
  or_Controller :: "bool option"
  or_BlockOwnerDeletion :: "bool option"

text \<open>
  \<open>unstructured.Unstructured\<close> with a content that is not \<open>nil\<close>, by the accessors the
  engine uses; \<open>Object\<close> stands for the rest of the content. The engine holds resources by
  pointer; the model holds one value per pointer, so a caller passes pairwise different
  pointers, none of them \<open>nil\<close>. Where a resource may be the zero value
  \<open>unstructured.Unstructured{}\<close>, whose content is \<open>nil\<close>, it is an \<open>unstructured option\<close>
  and the zero value is \<open>None\<close>; a content that is an empty map is a record with every
  field empty.
\<close>

record unstructured =
  GetAPIVersion :: string
  GetKind :: string
  GetNamespace :: string
  GetName :: string
  GetResourceVersion :: string
  GetOwnerReferences :: "ownerReference list"
  Object :: string

definition SetResourceVersion :: "unstructured \<Rightarrow> string \<Rightarrow> unstructured" where
  "SetResourceVersion r v = r\<lparr>GetResourceVersion := v\<rparr>"

definition SetOwnerReferences :: "unstructured \<Rightarrow> ownerReference list \<Rightarrow> unstructured" where
  "SetOwnerReferences r refs = r\<lparr>GetOwnerReferences := refs\<rparr>"

record groupVersionKind =
  Group :: string
  Version :: string
  Kind :: string

text \<open>
  \<open>GroupVersionKind()\<close> of the library parses the apiVersion: the empty string and a
  lone slash are the empty group and version, no slash is a version without group, one
  slash is group and version; with more slashes the parse fails and the result is the
  empty \<open>GroupVersionKind{}\<close>, without the kind.
\<close>

definition GroupVersionKind :: "unstructured \<Rightarrow> groupVersionKind" where
  "GroupVersionKind r =
     (let gv = GetAPIVersion r; n = length (filter (\<lambda>c. c = CHR ''/'') gv)
      in if gv = [] \<or> gv = ''/'' then \<lparr>Group = [], Version = [], Kind = GetKind r\<rparr>
         else if n = 0 then \<lparr>Group = [], Version = gv, Kind = GetKind r\<rparr>
         else if n = 1 then
           \<lparr>Group = takeWhile (\<lambda>c. c \<noteq> CHR ''/'') gv,
            Version = tl (dropWhile (\<lambda>c. c \<noteq> CHR ''/'') gv), Kind = GetKind r\<rparr>
         else \<lparr>Group = [], Version = [], Kind = []\<rparr>)"

definition resourceKey :: "unstructured \<Rightarrow> string" where
  "resourceKey r =
     (let gvk = GroupVersionKind r
      in Group gvk @ ''/'' @ Version gvk @ ''/'' @ Kind gvk @ ''/'' @ GetNamespace r
           @ ''/'' @ GetName r)"

definition isCustomResourceDefinition :: "unstructured \<Rightarrow> bool" where
  "isCustomResourceDefinition r =
     (GetAPIVersion r = ''apiextensions.k8s.io/v1beta1'' \<and> GetKind r = ''CustomResourceDefinition'')"

text \<open>
  \<open>sortResources\<close> is \<open>sort.Slice\<close> by \<open>resourceKey\<close>, which is not stable: resources of
  equal key end in an order the library chooses. That choice is the parameter \<open>ties\<close>, a
  rearrangement of the slice; the result is sorted by key and has the resources of equal
  key in the order \<open>ties\<close> puts them.
\<close>

definition sortResources ::
  "(unstructured list \<Rightarrow> unstructured list) \<Rightarrow> unstructured list \<Rightarrow> unstructured list"
where
  "sortResources ties res = sort_key resourceKey (ties res)"

text \<open>The types of package \<open>apps\<close>, by the fields the engine reads and writes.\<close>

datatype resourceAction =
  ResourceActionNone | ResourceActionCreate | ResourceActionUpdate | ResourceActionReplace

record resourceStatus =
  st_Namespace :: string
  st_Name :: string
  st_Action :: resourceAction
  st_Error :: string

record resourceRef =
  ref_Namespace :: string
  ref_Name :: string

record resourceSetSpecGroup =
  grp_Group :: string
  grp_Version :: string
  grp_Kind :: string
  grp_Items :: "resourceRef list"

datatype resourceSetPhase = ResourceSetPhaseUnset | ResourceSetPhasePending

record resourceSet =
  rs_Kind :: string
  rs_APIVersion :: string
  rs_Name :: string
  rs_UID :: string
  rs_Labels :: "(string \<times> string) list"
  rs_Resources :: "resourceSetSpecGroup list"
  rs_Phase :: resourceSetPhase
  rs_StartedAt :: nat

record applyOptions =
  opt_name :: string
  opt_version :: int32

section \<open>The cluster\<close>

text \<open>
  An error of the cluster's API: whether \<open>k8serrors.IsNotFound\<close> holds of it, and its
  message.
\<close>

datatype apiError = ApiError (IsNotFound: bool) (Error: string)

datatype restScopeName = RESTScopeNameRoot | RESTScopeNameNamespace

type_synonym groupVersionResource = "string \<times> string \<times> string"

record restMapping =
  map_Resource :: groupVersionResource
  map_Scope :: restScopeName

text \<open>A \<open>dynamic.ResourceInterface\<close>: the resource and, unless cluster-scoped, a namespace.\<close>

type_synonym resourceClient = "groupVersionResource \<times> string option"

record customResourceDefinition =
  crd_Group :: string
  crd_Version :: string
  crd_Plural :: string

text \<open>
  The collaborators of \<open>Synk\<close> (\<open>s.mapper\<close>, \<open>s.client\<close>, \<open>s.discovery\<close>) are outside the
  repository. Each is a function of the state of the world \<open>'w\<close> giving its answer and the
  next state. \<open>convert_CRD\<close> is the result of \<open>convert(ucrd, &crd)\<close>, \<open>clock_Now\<close> is
  \<open>metav1.Now()\<close>, \<open>wait_Polls\<close> is how many ticks of its timer a call of
  \<open>wait.PollImmediate\<close> gets served, and \<open>sort_ties\<close> is the order in which \<open>sort.Slice\<close>
  leaves elements of equal key.
\<close>

record 'w synk =
  mapper_RESTMapping :: "string \<times> string \<Rightarrow> string \<Rightarrow> 'w \<Rightarrow> (apiError + restMapping) \<times> 'w"
  client_Get :: "resourceClient \<Rightarrow> string \<Rightarrow> 'w \<Rightarrow> (apiError + unstructured) \<times> 'w"
  client_Create :: "resourceClient \<Rightarrow> unstructured \<Rightarrow> 'w \<Rightarrow> (apiError + unstructured) \<times> 'w"
  client_Update :: "resourceClient \<Rightarrow> unstructured \<Rightarrow> 'w \<Rightarrow> (apiError + unstructured) \<times> 'w"
  client_Delete :: "resourceClient \<Rightarrow> string \<Rightarrow> 'w \<Rightarrow> apiError option \<times> 'w"
  client_List :: "'w \<Rightarrow> (apiError + unstructured list) \<times> 'w"
  client_CreateResourceSet :: "resourceSet \<Rightarrow> 'w \<Rightarrow> (apiError + resourceSet) \<times> 'w"
  discovery_Invalidate :: "'w \<Rightarrow> 'w"
  discovery_ServerResourcesForGroupVersion :: "string \<Rightarrow> 'w \<Rightarrow> (apiError + string list) \<times> 'w"
  convert_CRD :: "unstructured \<Rightarrow> apiError + customResourceDefinition"
  clock_Now :: "'w \<Rightarrow> nat"
  wait_Polls :: nat
  sort_ties :: "unstructured list \<Rightarrow> unstructured list"

text \<open>
  The state the engine runs in: the world, and the calls made so far. \<open>EvApplyOne\<close> marks
  an invocation of \<open>applyOne\<close> with its resource and its \<open>replace\<close> flag.
\<close>

datatype event =
  EvApplyOne unstructured bool
| EvRESTMapping "string \<times> string" string
| EvGet resourceClient string
| EvCreate resourceClient unstructured
| EvUpdate resourceClient unstructured
| EvDelete resourceClient string
| EvList
| EvCreateResourceSet resourceSet

record 'w state =
  world :: 'w
  calls :: "event list"

definition called :: "event \<Rightarrow> 'r \<times> 'w \<Rightarrow> 'w state \<Rightarrow> 'r \<times> 'w state" where
  "called ev answer s = (fst answer, \<lparr>world = snd answer, calls = calls s @ [ev]\<rparr>)"

definition RESTMapping ::
  "'w synk \<Rightarrow> string \<times> string \<Rightarrow> string \<Rightarrow> 'w state \<Rightarrow> (apiError + restMapping) \<times> 'w state"
where
  "RESTMapping c gk v s = called (EvRESTMapping gk v) (mapper_RESTMapping c gk v (world s)) s"

definition Get ::
  "'w synk \<Rightarrow> resourceClient \<Rightarrow> string \<Rightarrow> 'w state \<Rightarrow> (apiError + unstructured) \<times> 'w state"
where
  "Get c client n s = called (EvGet client n) (client_Get c client n (world s)) s"

definition Create ::
  "'w synk \<Rightarrow> resourceClient \<Rightarrow> unstructured \<Rightarrow> 'w state
     \<Rightarrow> (apiError + unstructured) \<times> 'w state"
where
  "Create c client r s = called (EvCreate client r) (client_Create c client r (world s)) s"

definition Update ::
  "'w synk \<Rightarrow> resourceClient \<Rightarrow> unstructured \<Rightarrow> 'w state
     \<Rightarrow> (apiError + unstructured) \<times> 'w state"
where
  "Update c client r s = called (EvUpdate client r) (client_Update c client r (world s)) s"

definition Delete ::
  "'w synk \<Rightarrow> resourceClient \<Rightarrow> string \<Rightarrow> 'w state \<Rightarrow> apiError option \<times> 'w state"
where
  "Delete c client n s = called (EvDelete client n) (client_Delete c client n (world s)) s"

definition List_ResourceSets ::
  "'w synk \<Rightarrow> 'w state \<Rightarrow> (apiError + unstructured list) \<times> 'w state"
where
  "List_ResourceSets c s = called EvList (client_List c (world s)) s"

section \<open>applyOne\<close>

text \<open>
  The result is the action, the error (\<open>None\<close> for \<open>nil\<close>) and the resource as the call
  leaves it behind its pointer. \<open>rs\<close> is a pointer the function never reads. On entry the
  model notes the invocation in the trace of calls (\<open>invoke\<close>); the code has no statement
  for that.
\<close>

definition invoke :: "unstructured \<Rightarrow> bool \<Rightarrow> 'w state \<Rightarrow> 'w state" where
  "invoke r replace s = s\<lparr>calls := calls s @ [EvApplyOne r replace]\<rparr>"

definition applyOne ::
  "'w synk \<Rightarrow> resourceSet option \<Rightarrow> unstructured \<Rightarrow> bool \<Rightarrow> 'w state
     \<Rightarrow> (resourceAction \<times> error option \<times> unstructured) \<times> 'w state"
where
  "applyOne c rs resource replace s0 =
     (let s = invoke resource replace s0
      in
      if GetName resource = [] then
        ((ResourceActionNone, Some (errors_New ''missing resource name''), resource), s)
      else
        let gvk = GroupVersionKind resource
        in case RESTMapping c (Group gvk, Kind gvk) (Version gvk) s of
             (Inl err, s1) \<Rightarrow>
               ((ResourceActionNone, Some (errors_Wrap (Error err) ''get REST mapping''), resource), s1)
           | (Inr mapping, s1) \<Rightarrow>
               let client =
                     (if map_Scope mapping = RESTScopeNameRoot then (map_Resource mapping, None)
                      else (map_Resource mapping, Some (GetNamespace resource)))
               in case Get c client (GetName resource) s1 of
                    (Inl err, s2) \<Rightarrow>
                      if IsNotFound err then
                        (case Create c client resource s2 of
                           (Inl err', s3) \<Rightarrow>
                             ((ResourceActionCreate,
                               Some (errors_Wrap (Error err') ''create resource''), resource), s3)
                         | (Inr _, s3) \<Rightarrow> ((ResourceActionCreate, None, resource), s3))
                      else
                        ((ResourceActionNone, Some (errors_Wrap (Error err) ''get resource''),
                          resource), s2)
                  | (Inr prev, s2) \<Rightarrow>
                      let resource1 = SetResourceVersion resource (GetResourceVersion prev)
                      in case Update c client resource1 s2 of
                           (Inr _, s3) \<Rightarrow> ((ResourceActionUpdate, None, resource1), s3)
                         | (Inl err, s3) \<Rightarrow>
                             if \<not> replace then
                               ((ResourceActionUpdate,
                                 Some (errors_Wrap (Error err) ''update resource''), resource1), s3)
                             else
                               (case Delete c client (GetName prev) s3 of
                                  (Some err', s4) \<Rightarrow>
                                    ((ResourceActionReplace,
                                      Some (errors_Wrap (Error err') ''delete resource''),
                                      resource1), s4)
                                | (None, s4) \<Rightarrow>
                                    let resource2 = SetResourceVersion resource1 []
                                    in case Create c client resource2 s4 of
                                         (Inl err', s5) \<Rightarrow>
                                           ((ResourceActionReplace,
                                             Some (errors_Wrap (Error err') ''create resource''),
                                             resource2), s5)
                                       | (Inr _, s5) \<Rightarrow>
                                           ((ResourceActionReplace, None, resource2), s5)))"

section \<open>The availability gate\<close>

definition crdAvailable ::
  "'w synk \<Rightarrow> unstructured \<Rightarrow> 'w state \<Rightarrow> (bool \<times> error option) \<times> 'w state"
where
  "crdAvailable c ucrd s =
     (let s1 = s\<lparr>world := discovery_Invalidate c (world s)\<rparr>
      in case convert_CRD c ucrd of
           Inl err \<Rightarrow> ((False, Some (Error err)), s1)
         | Inr crd \<Rightarrow>
             (case discovery_ServerResourcesForGroupVersion c
                     (crd_Group crd @ ''/'' @ crd_Version crd) (world s1) of
                (Inl err, w2) \<Rightarrow> ((False, None), s1\<lparr>world := w2\<rparr>)
              | (Inr names, w2) \<Rightarrow>
                  ((list_ex (\<lambda>n. n = crd_Plural crd) names, None), s1\<lparr>world := w2\<rparr>)))"

text \<open>The condition passed to \<open>wait.PollImmediate\<close>: every CRD in turn, stopping at the first
  that is not available.\<close>

fun crdsAvailable ::
  "'w synk \<Rightarrow> unstructured list \<Rightarrow> 'w state \<Rightarrow> (bool \<times> error option) \<times> 'w state"
where
  "crdsAvailable c [] s = ((True, None), s)"
| "crdsAvailable c (crd # crds) s =
     (case crdAvailable c crd s of
        ((ok, err), s1) \<Rightarrow>
          if \<not> ok \<or> err \<noteq> None then ((False, err), s1) else crdsAvailable c crds s1)"

definition ErrWaitTimeout :: error where
  "ErrWaitTimeout = ''timed out waiting for the condition''"

text \<open>
  \<open>wait.PollImmediate(interval, timeout, condition)\<close> of the library: the condition once
  at once, then once per tick, and once more when the timeout closes the channel of the
  ticks, until it holds or fails; after that last check the result is \<open>ErrWaitTimeout\<close>.
  Time is counted in seconds and not modelled further: at most \<open>timeout div interval\<close>
  ticks fit before the timeout, and \<open>ticks\<close> is how many of them the run gets served. With
  2 seconds and 2 minutes that is at most 62 checks.
\<close>

definition Second :: nat where
  "Second = 1"

definition Minute :: nat where
  "Minute = 60 * Second"

fun poll ::
  "nat \<Rightarrow> ('s \<Rightarrow> (bool \<times> error option) \<times> 's) \<Rightarrow> 's \<Rightarrow> error option \<times> 's"
where
  "poll 0 condition s = (Some ErrWaitTimeout, s)"
| "poll (Suc n) condition s =
     (case condition s of
        ((done, Some err), s1) \<Rightarrow> (Some err, s1)
      | ((done, None), s1) \<Rightarrow> if done then (None, s1) else poll n condition s1)"

definition PollImmediate ::
  "nat \<Rightarrow> nat \<Rightarrow> nat \<Rightarrow> ('s \<Rightarrow> (bool \<times> error option) \<times> 's) \<Rightarrow> 's \<Rightarrow> error option \<times> 's"
where
  "PollImmediate interval timeout ticks condition s =
     poll (Suc (Suc (min ticks (timeout div interval)))) condition s"

section \<open>applyAll\<close>

type_synonym statusMap = "string \<rightharpoonup> resourceStatus"

fun initStatus :: "unstructured list \<Rightarrow> statusMap \<Rightarrow> statusMap" where
  "initStatus [] status = status"
| "initStatus (r # resources) status =
     initStatus resources
       (status(resourceKey r \<mapsto>
          \<lparr>st_Namespace = GetNamespace r, st_Name = GetName r,
           st_Action = ResourceActionNone, st_Error = []\<rparr>))"

text \<open>
  What both loops do with the result of \<open>applyOne\<close>: \<open>st.Error\<close> and \<open>st.Action\<close> are
  written through the pointer read from the map.
\<close>

definition record_result :: "resourceStatus \<Rightarrow> resourceAction \<Rightarrow> error option \<Rightarrow> resourceStatus" where
  "record_result st action err =
     (case err of
        Some e \<Rightarrow> st\<lparr>st_Error := e, st_Action := action\<rparr>
      | None \<Rightarrow> st\<lparr>st_Error := [], st_Action := action\<rparr>)"

text \<open>The first loop: every CRD once, never replaced. It returns the CRDs as the calls
  left them, the status map and the state.\<close>

fun applyCRDs ::
  "'w synk \<Rightarrow> resourceSet option \<Rightarrow> unstructured list \<Rightarrow> unstructured list \<Rightarrow> statusMap
     \<Rightarrow> 'w state \<Rightarrow> (unstructured list \<times> statusMap \<times> 'w state) go"
where
  "applyCRDs c rs [] visited status s = Return (visited, status, s)"
| "applyCRDs c rs (crd # crds) visited status s =
     (case status (resourceKey crd) of
        None \<Rightarrow> Panic NilDereference
      | Some st \<Rightarrow>
          (case applyOne c rs crd False s of
             ((action, err, crd'), s1) \<Rightarrow>
               applyCRDs c rs crds (visited @ [crd'])
                 (status(resourceKey crd \<mapsto> record_result st action err)) s1))"

text \<open>
  One pass of the inner loop over the regular resources, in iteration \<open>i\<close>. Beside what the
  code keeps (\<open>status\<close>, \<open>curFailures\<close>) it returns the resources as the calls left them and
  the list of those it attempted.
\<close>

fun applyPass ::
  "'w synk \<Rightarrow> resourceSet option \<Rightarrow> nat \<Rightarrow> unstructured list \<Rightarrow> unstructured list
     \<Rightarrow> unstructured list \<Rightarrow> statusMap \<Rightarrow> nat \<Rightarrow> 'w state
     \<Rightarrow> (unstructured list \<times> unstructured list \<times> statusMap \<times> nat \<times> 'w state) go"
where
  "applyPass c rs i [] visited attempted status curFailures s =
     Return (visited, attempted, status, curFailures, s)"
| "applyPass c rs i (r # regulars) visited attempted status curFailures s =
     (case status (resourceKey r) of
        None \<Rightarrow> Panic NilDereference
      | Some st \<Rightarrow>
          if i > 0 \<and> st_Error st = [] then
            applyPass c rs i regulars (visited @ [r]) attempted status curFailures s
          else
            (case applyOne c rs r True s of
               ((action, err, r'), s1) \<Rightarrow>
                 applyPass c rs i regulars (visited @ [r']) (attempted @ [r])
                   (status(resourceKey r \<mapsto> record_result st action err))
                   (if err \<noteq> None then curFailures + 1 else curFailures) s1))"

text \<open>What the model records of one pass of the outer loop.\<close>

record pass =
  pass_attempted :: "unstructured list"
  pass_failures :: nat
  pass_status :: statusMap

record 'w applied =
  ap_resources :: "unstructured list"
  ap_status :: statusMap
  ap_passes :: "pass list"
  ap_state :: "'w state"

text \<open>The outer loop \<open>for i := 0; i < 10; i++\<close>, from iteration \<open>i\<close> on.\<close>

function applyLoop ::
  "'w synk \<Rightarrow> resourceSet option \<Rightarrow> nat \<Rightarrow> nat \<Rightarrow> unstructured list \<Rightarrow> statusMap
     \<Rightarrow> pass list \<Rightarrow> 'w state \<Rightarrow> 'w applied go"
where
  "applyLoop c rs i prevFailures regulars status passes s =
     (if i < 10 then
        (case applyPass c rs i regulars [] [] status 0 s of
           Panic p \<Rightarrow> Panic p
         | Return (regulars', attempted, status', curFailures, s1) \<Rightarrow>
             let passes' = passes @
                   [\<lparr>pass_attempted = attempted, pass_failures = curFailures,
                     pass_status = status'\<rparr>]
             in if curFailures = 0 \<or> curFailures = prevFailures then
                  Return \<lparr>ap_resources = regulars', ap_status = status', ap_passes = passes',
                          ap_state = s1\<rparr>
                else applyLoop c rs (i + 1) curFailures regulars' status' passes' s1)
      else
        Return \<lparr>ap_resources = regulars, ap_status = status, ap_passes = passes, ap_state = s\<rparr>)"
  by pat_completeness auto
termination
  by (relation "measure (\<lambda>(c, rs, i, prevFailures, regulars, status, passes, s). 10 - i)") auto

declare applyLoop.simps [simp del]

text \<open>
  \<open>applyAll\<close> returns its error; the model returns as well the status map, the passes and
  the resources (CRDs as filtered, then regulars), which the code drops.
\<close>

definition applyAll ::
  "'w synk \<Rightarrow> resourceSet option \<Rightarrow> applyOptions \<Rightarrow> unstructured list \<Rightarrow> 'w state
     \<Rightarrow> (error option \<times> 'w applied) go"
where
  "applyAll c rs opts resources s =
     (let status = initStatus resources Map.empty;
          regulars = filter (\<lambda>r. \<not> isCustomResourceDefinition r) resources;
          crds = filter isCustomResourceDefinition resources
      in case applyCRDs c rs crds [] status s of
           Panic p \<Rightarrow> Panic p
         | Return (crds', status1, s1) \<Rightarrow>
             (case PollImmediate (2 * Second) (2 * Minute) (wait_Polls c) (crdsAvailable c crds') s1 of
                (Some err, s2) \<Rightarrow>
                  Return (Some (errors_Wrap err ''wait for CRDs''),
                          \<lparr>ap_resources = crds' @ regulars, ap_status = status1, ap_passes = [],
                           ap_state = s2\<rparr>)
              | (None, s2) \<Rightarrow>
                  (case applyLoop c rs 0 0 regulars status1 [] s2 of
                     Panic p \<Rightarrow> Panic p
                   | Return a \<Rightarrow>
                       Return (None, a\<lparr>ap_resources := crds' @ ap_resources a\<rparr>))))"

section \<open>Versions and owner references\<close>

text \<open>The loop of \<open>next\<close> over the names of the listed items, \<open>curVersion\<close> carried along;
  \<open>v > curVersion\<close> compares two \<open>int32\<close>.\<close>

fun nextLoop :: "string \<Rightarrow> string list \<Rightarrow> int32 \<Rightarrow> int32 go" where
  "nextLoop name [] curVersion = Return curVersion"
| "nextLoop name (r # items) curVersion =
     (case decodeResourceSetName r of
        Panic p \<Rightarrow> Panic p
      | Return (n, v, ok) \<Rightarrow>
          if \<not> ok \<or> n \<noteq> name then nextLoop name items curVersion
          else if sint v > sint curVersion then nextLoop name items v
          else nextLoop name items curVersion)"

text \<open>\<open>next\<close> (a keyword here, hence the longer name): the version and the error.\<close>

definition synk_next ::
  "'w synk \<Rightarrow> string \<Rightarrow> 'w state \<Rightarrow> ((int32 \<times> error option) \<times> 'w state) go"
where
  "synk_next c name s =
     (case List_ResourceSets c s of
        (Inl err, s1) \<Rightarrow>
          Return ((0, Some (errors_Wrap (Error err) ''list existing ResourceSets'')), s1)
      | (Inr items, s1) \<Rightarrow>
          (case nextLoop name (map GetName items) 0 of
             Panic p \<Rightarrow> Panic p
           | Return curVersion \<Rightarrow> Return ((curVersion + 1, None), s1)))"

text \<open>
  The loop of \<open>setOwnerRef\<close>: \<open>refs\<close> is what is left of the slice the \<open>range\<close> clause
  evaluated (its element is \<open>or\<close> in the code), \<open>ownerRefs\<close> the variable the body
  appends to.
\<close>

fun scanOwnerRefs ::
  "string \<Rightarrow> int32 \<Rightarrow> ownerReference list \<Rightarrow> ownerReference list
     \<Rightarrow> (error + ownerReference list) go"
where
  "scanOwnerRefs name version [] ownerRefs = Return (Inr ownerRefs)"
| "scanOwnerRefs name version (oref # refs) ownerRefs =
     (if or_APIVersion oref \<noteq> ''apps.cloudrobotics.com/v1alpha1'' \<or> or_Kind oref \<noteq> ''Resources''
      then scanOwnerRefs name version refs (ownerRefs @ [oref])
      else
        (case decodeResourceSetName (or_Name oref) of
           Panic p \<Rightarrow> Panic p
         | Return (n, v, ok) \<Rightarrow>
             if \<not> ok then
               Return (Inl (''Resources owner reference with invalid name '' @ quote (or_Name oref)))
             else if n \<noteq> name then
               Return (Inl (''owned by conflicting Resources object '' @ quote (or_Name oref)))
             else if sint v > sint version then
               Return (Inl (''conflicting Resources version '' @ showInt (sint version)))
             else scanOwnerRefs name version refs ownerRefs))"

text \<open>
  \<open>setOwnerRef\<close>: the error and the resource as the call leaves it. The slice the loop
  ranges over is the local variable \<open>ownerRefs\<close>, declared on the line before and still
  \<open>nil\<close>.
\<close>

definition setOwnerRef :: "resourceSet \<Rightarrow> unstructured \<Rightarrow> (error option \<times> unstructured) go" where
  "setOwnerRef rs resource =
     (case decodeResourceSetName (rs_Name rs) of
        Panic p \<Rightarrow> Panic p
      | Return (name, version, ok) \<Rightarrow>
          if \<not> ok then Return (Some (''invalid ResourceSet name '' @ quote (rs_Name rs)), resource)
          else
            let ownerRefs = []
            in case scanOwnerRefs name version ownerRefs ownerRefs of
                 Panic p \<Rightarrow> Panic p
               | Return (Inl err) \<Rightarrow> Return (Some err, resource)
               | Return (Inr ownerRefs') \<Rightarrow>
                   Return (None,
                     SetOwnerReferences resource
                       (ownerRefs' @
                          [\<lparr>or_APIVersion = ''apps.cloudrobotics.com/v1alpha1'',
                            or_Kind = ''Resources'', or_Name = rs_Name rs, or_UID = rs_UID rs,
                            or_Controller = None, or_BlockOwnerDeletion = Some True\<rparr>])))"

section \<open>initialize and Apply\<close>

definition createResourceSet ::
  "'w synk \<Rightarrow> resourceSet \<Rightarrow> 'w state \<Rightarrow> (apiError + resourceSet) \<times> 'w state"
where
  "createResourceSet c rs s =
     (let rs1 = rs\<lparr>rs_Kind := ''ResourceSet'', rs_APIVersion := ''apps.cloudrobotics.com/v1alpha1''\<rparr>
      in called (EvCreateResourceSet rs1) (client_CreateResourceSet c rs1 (world s)) s)"

definition groupKey :: "groupVersionKind \<Rightarrow> string" where
  "groupKey gvk = Group gvk @ ''/'' @ Version gvk @ ''/'' @ Kind gvk"

text \<open>The groups of the spec: one per group, version and kind, its items in the order of
  the resources, the groups sorted by \<open>group/version/kind\<close>.\<close>

definition groupResources :: "unstructured list \<Rightarrow> resourceSetSpecGroup list" where
  "groupResources resources =
     map (\<lambda>gvk.
            \<lparr>grp_Group = Group gvk, grp_Version = Version gvk, grp_Kind = Kind gvk,
             grp_Items =
               map (\<lambda>r. \<lparr>ref_Namespace = GetNamespace r, ref_Name = GetName r\<rparr>)
                 (filter (\<lambda>r. GroupVersionKind r = gvk) resources)\<rparr>)
         (sort_key groupKey (remdups (map GroupVersionKind resources)))"

text \<open>The last loop of \<open>initialize\<close>: the owner reference on every resource but the CRDs.\<close>

fun setOwnerRefs ::
  "resourceSet \<Rightarrow> unstructured list \<Rightarrow> unstructured list \<Rightarrow> (error + unstructured list) go"
where
  "setOwnerRefs rs [] visited = Return (Inr visited)"
| "setOwnerRefs rs (r # resources) visited =
     (if \<not> isCustomResourceDefinition r then
        (case setOwnerRef rs r of
           Panic p \<Rightarrow> Panic p
         | Return (Some err, r') \<Rightarrow>
             Return (Inl (errors_Wrapf_q err ''set owner reference for '' (resourceKey r)))
         | Return (None, r') \<Rightarrow> setOwnerRefs rs resources (visited @ [r']))
      else setOwnerRefs rs resources (visited @ [r]))"

text \<open>
  The first filter of \<open>initialize\<close> drops the resources that \<open>reflect.DeepEqual\<close> finds equal
  to \<open>unstructured.Unstructured{}\<close>: those whose content is \<open>nil\<close>.
\<close>

fun nonZero :: "unstructured option list \<Rightarrow> unstructured list" where
  "nonZero [] = []"
| "nonZero (None # resources) = nonZero resources"
| "nonZero (Some r # resources) = r # nonZero resources"

text \<open>\<open>initialize\<close>: the pointer to the resource set (\<open>None\<close> for \<open>nil\<close>), the resources and
  the error; with them the options, which it writes the version to.\<close>

definition initialize ::
  "'w synk \<Rightarrow> applyOptions \<Rightarrow> unstructured option list \<Rightarrow> 'w state
     \<Rightarrow> ((resourceSet option \<times> unstructured list \<times> error option) \<times> applyOptions \<times> 'w state) go"
where
  "initialize c opts resources s =
     (let resources1 = sortResources (sort_ties c) (nonZero resources)
      in case synk_next c (opt_name opts) s of
           Panic p \<Rightarrow> Panic p
         | Return ((version, Some err), s1) \<Rightarrow>
             Return ((None, [], Some (errors_Wrap err ''get next ResourceSet version'')),
                     opts\<lparr>opt_version := version\<rparr>, s1)
         | Return ((version, None), s1) \<Rightarrow>
             let opts1 = opts\<lparr>opt_version := version\<rparr>;
                 rs = \<lparr>rs_Kind = [], rs_APIVersion = [],
                       rs_Name = resourceSetName (opt_name opts1) (opt_version opts1),
                       rs_UID = [], rs_Labels = [(''name'', opt_name opts1)],
                       rs_Resources = groupResources resources1,
                       rs_Phase = ResourceSetPhasePending, rs_StartedAt = clock_Now c (world s1)\<rparr>
             in case createResourceSet c rs s1 of
                  (Inl err, s2) \<Rightarrow>
                    Return ((None, [],
                             Some (errors_Wrapf_q (Error err) ''create resources object ''
                                     (rs_Name rs))), opts1, s2)
                | (Inr rs', s2) \<Rightarrow>
                    (case setOwnerRefs rs' resources1 [] of
                       Panic p \<Rightarrow> Panic p
                     | Return (Inl err) \<Rightarrow> Return ((None, [], Some err), opts1, s2)
                     | Return (Inr resources2) \<Rightarrow>
                         Return ((Some rs', resources2, None), opts1, s2)))"

text \<open>\<open>Apply\<close>: the pointer to the resource set and the error. With them the model returns
  what \<open>applyAll\<close> recorded, when it ran, and the state.\<close>

definition Apply ::
  "'w synk \<Rightarrow> string \<Rightarrow> applyOptions option \<Rightarrow> unstructured option list \<Rightarrow> 'w state
     \<Rightarrow> ((resourceSet option \<times> error option) \<times> 'w applied option \<times> 'w state) go"
where
  "Apply c name opts resources s =
     (let opts1 = (case opts of None \<Rightarrow> \<lparr>opt_name = [], opt_version = 0\<rparr> | Some given \<Rightarrow> given);
          opts2 = opts1\<lparr>opt_name := name\<rparr>
      in case initialize c opts2 resources s of
           Panic p \<Rightarrow> Panic p
         | Return ((rs, resources1, Some err), opts3, s1) \<Rightarrow> Return ((rs, Some err), None, s1)
         | Return ((rs, resources1, None), opts3, s1) \<Rightarrow>
             (case applyAll c rs opts3 resources1 s1 of
                Panic p \<Rightarrow> Panic p
              | Return (err, a) \<Rightarrow> Return ((rs, err), Some a, ap_state a)))"

text \<open>
  A caller that reconciles one name again and again, with no options and one batch of
  resources per call of \<open>Apply\<close>, each call starting in the state the one before left: what
  the calls returned, in their order.
\<close>

fun reconciliations ::
  "'w synk \<Rightarrow> string \<Rightarrow> unstructured option list list \<Rightarrow> 'w state
     \<Rightarrow> ((resourceSet option \<times> error option) list \<times> 'w state) go"
where
  "reconciliations c name [] s = Return ([], s)"
| "reconciliations c name (resources # batches) s =
     (case Apply c name None resources s of
        Panic p \<Rightarrow> Panic p
      | Return (result, a, s1) \<Rightarrow>
          (case reconciliations c name batches s1 of
             Panic p \<Rightarrow> Panic p
           | Return (results, s2) \<Rightarrow> Return (result # results, s2)))"

section \<open>Notions of the statements\<close>

text \<open>
  The versions that the records of a listing carry under a base name, in the words of the
  specification: each name is decoded with the pattern, and those whose base name is the
  given one contribute the number their digits denote.
\<close>

fun versionsOf :: "string \<Rightarrow> string list \<Rightarrow> nat list" where
  "versionsOf baseName [] = []"
| "versionsOf baseName (n # names) =
     (case FindStringSubmatch n of
        [whole, b, d] \<Rightarrow>
          if b = baseName then digitsVal d # versionsOf baseName names
          else versionsOf baseName names
      | _ \<Rightarrow> versionsOf baseName names)"

text \<open>The client \<open>applyOne\<close> takes for a resource under a mapping: the namespace of the
  resource unless the mapping is cluster-scoped.\<close>

definition clientFor :: "restMapping \<Rightarrow> unstructured \<Rightarrow> resourceClient" where
  "clientFor mapping resource =
     (if map_Scope mapping = RESTScopeNameRoot then (map_Resource mapping, None)
      else (map_Resource mapping, Some (GetNamespace resource)))"




text \<open>
  The calls that applying a CRD may make: \<open>applyOne\<close> invoked on a CRD with \<open>replace\<close>
  off, reads, and a create or an update of a CRD; never a delete.
\<close>

fun crdCall :: "event \<Rightarrow> bool" where
  "crdCall (EvApplyOne r replace) = (isCustomResourceDefinition r \<and> \<not> replace)"
| "crdCall (EvRESTMapping gk v) = True"
| "crdCall (EvGet client n) = True"
| "crdCall (EvCreate client r) = isCustomResourceDefinition r"
| "crdCall (EvUpdate client r) = isCustomResourceDefinition r"
| "crdCall (EvDelete client n) = False"
| "crdCall EvList = False"
| "crdCall (EvCreateResourceSet rs) = False"

text \<open>The calls of the retry loop: \<open>applyOne\<close> is invoked on no CRD, and nothing is created
  or updated that is a CRD.\<close>

fun regularCall :: "event \<Rightarrow> bool" where
  "regularCall (EvApplyOne r replace) = (\<not> isCustomResourceDefinition r)"
| "regularCall (EvCreate client r) = (\<not> isCustomResourceDefinition r)"
| "regularCall (EvUpdate client r) = (\<not> isCustomResourceDefinition r)"
| "regularCall ev = True"

text \<open>
  The invocations of \<open>applyOne\<close> that a trace of calls holds, in their order: the resource
  and the \<open>replace\<close> flag of each.
\<close>

fun invocations :: "event list \<Rightarrow> (unstructured \<times> bool) list" where
  "invocations [] = []"
| "invocations (EvApplyOne r replace # evs) = (r, replace) # invocations evs"
| "invocations (ev # evs) = invocations evs"

text \<open>
  The outcomes of the first \<open>n\<close> checks of a condition, each made in the state the one
  before left. The wait of the gate runs into its timeout when none of the checks it has
  time for finds every CRD available: the outcome of each is \<open>(False, None)\<close>.
\<close>

fun outcomes ::
  "nat \<Rightarrow> ('s \<Rightarrow> (bool \<times> error option) \<times> 's) \<Rightarrow> 's \<Rightarrow> (bool \<times> error option) list"
where
  "outcomes 0 condition s = []"
| "outcomes (Suc n) condition s =
     (case condition s of (outcome, s1) \<Rightarrow> outcome # outcomes n condition s1)"

text \<open>
  A cluster that keeps the records of the resource sets with no other writer: \<open>records\<close>
  reads their names off the world. Listing returns items of these names and changes none;
  creating a resource set answers with a record of the name asked for and adds that name,
  or fails and adds nothing; no other call changes the names.
\<close>

definition keepsRecords :: "'w synk \<Rightarrow> ('w \<Rightarrow> string list) \<Rightarrow> bool" where
  "keepsRecords c records =
     ((\<forall>gk v w. records (snd (mapper_RESTMapping c gk v w)) = records w)
      \<and> (\<forall>client n w. records (snd (client_Get c client n w)) = records w)
      \<and> (\<forall>client r w. records (snd (client_Create c client r w)) = records w)
      \<and> (\<forall>client r w. records (snd (client_Update c client r w)) = records w)
      \<and> (\<forall>client n w. records (snd (client_Delete c client n w)) = records w)
      \<and> (\<forall>w. records (discovery_Invalidate c w) = records w)
      \<and> (\<forall>gv w. records (snd (discovery_ServerResourcesForGroupVersion c gv w)) = records w))"

definition recordStore :: "'w synk \<Rightarrow> ('w \<Rightarrow> string list) \<Rightarrow> bool" where
  "recordStore c records =
     (keepsRecords c records
      \<and> (\<forall>w. records (snd (client_List c w)) = records w
              \<and> (\<forall>items. fst (client_List c w) = Inr items \<longrightarrow> map GetName items = records w))
      \<and> (\<forall>rs w. case client_CreateResourceSet c rs w of
                     (Inl err, w') \<Rightarrow> records w' = records w
                   | (Inr rs', w') \<Rightarrow> rs_Name rs' = rs_Name rs \<and> records w' = records w @ [rs_Name rs]))"

text \<open>The options \<open>Apply\<close> works with: those given, or the zero value, with the name set.\<close>

definition optionsFor :: "applyOptions option \<Rightarrow> string \<Rightarrow> applyOptions" where
  "optionsFor given name =
     (case given of None \<Rightarrow> \<lparr>opt_name = [], opt_version = 0\<rparr> | Some g \<Rightarrow> g)\<lparr>opt_name := name\<rparr>"

section \<open>Example inputs\<close>

definition exampleSet :: "string \<Rightarrow> resourceSet" where
  "exampleSet n =
     \<lparr>rs_Kind = ''ResourceSet'', rs_APIVersion = ''apps.cloudrobotics.com/v1alpha1'',
      rs_Name = n, rs_UID = ''uid-1'', rs_Labels = [(''name'', ''app'')], rs_Resources = [],
      rs_Phase = ResourceSetPhasePending, rs_StartedAt = 0\<rparr>"

definition exampleOwner :: "string \<Rightarrow> ownerReference" where
  "exampleOwner n =
     \<lparr>or_APIVersion = ''apps.cloudrobotics.com/v1alpha1'', or_Kind = ''Resources'',
      or_Name = n, or_UID = ''uid-0'', or_Controller = None, or_BlockOwnerDeletion = Some True\<rparr>"

definition exampleConfigMap :: "string \<Rightarrow> ownerReference list \<Rightarrow> unstructured" where
  "exampleConfigMap n refs =
     \<lparr>GetAPIVersion = ''v1'', GetKind = ''ConfigMap'', GetNamespace = ''default'', GetName = n,
      GetResourceVersion = [], GetOwnerReferences = refs, Object = []\<rparr>"

definition exampleCRD :: "string \<Rightarrow> unstructured" where
  "exampleCRD n =
     \<lparr>GetAPIVersion = ''apiextensions.k8s.io/v1beta1'', GetKind = ''CustomResourceDefinition'',
      GetNamespace = [], GetName = n, GetResourceVersion = [], GetOwnerReferences = [],
      Object = []\<rparr>"

text \<open>A record of the given name, as \<open>List\<close> returns it.\<close>

definition exampleRecord :: "string \<Rightarrow> unstructured" where
  "exampleRecord n =
     \<lparr>GetAPIVersion = ''apps.cloudrobotics.com/v1alpha1'', GetKind = ''ResourceSet'',
      GetNamespace = [], GetName = n, GetResourceVersion = ''1'', GetOwnerReferences = [],
      Object = []\<rparr>"

text \<open>
  A cluster with fixed answers; its world counts the calls. The listing, the answer of
  \<open>Get\<close> by name, the answer of \<open>Update\<close> and the names discovery serves are parameters.
\<close>

definition exampleCluster ::
  "(apiError + unstructured list) \<Rightarrow> (string \<Rightarrow> apiError + unstructured)
     \<Rightarrow> (unstructured \<Rightarrow> apiError + unstructured) \<Rightarrow> string list \<Rightarrow> nat synk"
where
  "exampleCluster listing getAnswer updateAnswer served =
     \<lparr>mapper_RESTMapping =
        (\<lambda>gk v w. (Inr \<lparr>map_Resource = (fst gk, v, ''things''),
                          map_Scope = RESTScopeNameNamespace\<rparr>, w + 1)),
      client_Get = (\<lambda>client n w. (getAnswer n, w + 1)),
      client_Create = (\<lambda>client r w. (Inr r, w + 1)),
      client_Update = (\<lambda>client r w. (updateAnswer r, w + 1)),
      client_Delete = (\<lambda>client n w. (None, w + 1)),
      client_List = (\<lambda>w. (listing, w + 1)),
      client_CreateResourceSet = (\<lambda>rs w. (Inr (rs\<lparr>rs_UID := ''uid-1''\<rparr>), w + 1)),
      discovery_Invalidate = (\<lambda>w. w),
      discovery_ServerResourcesForGroupVersion = (\<lambda>gv w. (Inr served, w + 1)),
      convert_CRD =
        (\<lambda>r. Inr \<lparr>crd_Group = ''example.com'', crd_Version = ''v1'', crd_Plural = ''widgets''\<rparr>),
      clock_Now = (\<lambda>w. w),
      wait_Polls = 2,
      sort_ties = (\<lambda>res. res)\<rparr>"

definition startState :: "nat state" where
  "startState = \<lparr>world = 0, calls = []\<rparr>"

text \<open>The example cluster with nothing stored, but refusing to create a resource whose
  content is \<open>bad\<close>.\<close>

definition rejectingCluster :: "nat synk" where
  "rejectingCluster =
     (exampleCluster (Inr []) (\<lambda>n. Inl (ApiError True ''not found'')) Inr [])
       \<lparr>client_Create :=
          (\<lambda>client r w. (if Object r = ''bad'' then Inl (ApiError False ''rejected'') else Inr r,
                          w + 1))\<rparr>"

text \<open>
  A cluster whose world is the list of the names of the resource sets it stores: it lists
  them, adds the name of each resource set created, and stores nothing else.
\<close>

definition storeCluster :: "string list synk" where
  "storeCluster =
     \<lparr>mapper_RESTMapping =
        (\<lambda>gk v w. (Inr \<lparr>map_Resource = (fst gk, v, ''things''),
                          map_Scope = RESTScopeNameNamespace\<rparr>, w)),
      client_Get = (\<lambda>client n w. (Inl (ApiError True ''not found''), w)),
      client_Create = (\<lambda>client r w. (Inr r, w)),
      client_Update = (\<lambda>client r w. (Inr r, w)),
      client_Delete = (\<lambda>client n w. (None, w)),
      client_List = (\<lambda>w. (Inr (map exampleRecord w), w)),
      client_CreateResourceSet = (\<lambda>rs w. (Inr (rs\<lparr>rs_UID := ''uid-1''\<rparr>), w @ [rs_Name rs])),
      discovery_Invalidate = (\<lambda>w. w),
      discovery_ServerResourcesForGroupVersion = (\<lambda>gv w. (Inr [], w)),
      convert_CRD =
        (\<lambda>r. Inr \<lparr>crd_Group = ''example.com'', crd_Version = ''v1'', crd_Plural = ''widgets''\<rparr>),
      clock_Now = (\<lambda>w. length w),
      wait_Polls = 2,
      sort_ties = (\<lambda>res. res)\<rparr>"

section \<open>Properties of the names\<close>

subsection \<open>Digits\<close>

lemma digit_cases: "d < 10 \<Longrightarrow> d = 0 \<or> d = 1 \<or> d = 2 \<or> d = 3 \<or> d = 4 \<or> d = 5 \<or> d = 6 \<or> d = 7 \<or> d = 8 \<or> d = (9::nat)"
  by arith

lemma digitVal_digitChar: "d < 10 \<Longrightarrow> digitVal (digitChar d) = d"
  using digit_cases [of d] by (auto simp: digitVal_def digitChar_def)

lemma isDigit_digitChar: "d < 10 \<Longrightarrow> isDigit (digitChar d)"
  using digit_cases [of d] by (auto simp: isDigit_def digitChar_def)

lemma showNat_nonempty: "showNat n \<noteq> []"
  by (subst showNat.simps) simp

lemma showNat_digits: "list_all isDigit (showNat n)"
proof (induction n rule: showNat.induct)
  case (1 n)
  show ?case
  proof (cases "n < 10")
    case True
    then show ?thesis by (subst showNat.simps) (simp add: isDigit_digitChar)
  next
    case False
    with 1 show ?thesis by (subst showNat.simps) (simp add: isDigit_digitChar)
  qed
qed

lemma digitsVal_snoc: "digitsVal (ds @ [c]) = 10 * digitsVal ds + digitVal c"
  by (simp add: digitsVal_def)

lemma digitsVal_showNat: "digitsVal (showNat n) = n"
proof (induction n rule: showNat.induct)
  case (1 n)
  show ?case
  proof (cases "n < 10")
    case True
    then show ?thesis by (subst showNat.simps) (simp add: digitsVal_def digitVal_digitChar)
  next
    case False
    with 1 show ?thesis by (subst showNat.simps) (simp add: digitsVal_snoc digitVal_digitChar)
  qed
qed

subsection \<open>The pattern\<close>

lemma not_inClass_dot: "\<not> inClass CHR ''.''"
  by (simp add: inClass_def isLower_def isDigit_def)

lemma FindStringSubmatch_match:
  assumes "namePat_matches s b d"
  shows "FindStringSubmatch s = [s, b, d]"
proof -
  from assms have s: "s = b @ CHR ''.'' # CHR ''v'' # d" and b: "b \<noteq> []" "list_all inClass b"
    and d: "d \<noteq> []" "list_all isDigit d"
    by (simp_all add: namePat_matches_def)
  from b have tw: "takeWhile inClass s = b" and dw: "dropWhile inClass s = CHR ''.'' # CHR ''v'' # d"
    unfolding s by (simp_all add: takeWhile_append2 dropWhile_append2 list_all_iff not_inClass_dot)
  show ?thesis
    unfolding FindStringSubmatch_def tw dw using b d by (simp add: Let_def)
qed

lemma FindStringSubmatch_cases:
  "FindStringSubmatch s = [] \<or> (\<exists>b d. FindStringSubmatch s = [s, b, d] \<and> namePat_matches s b d)"
proof (cases "FindStringSubmatch s = []")
  case True
  then show ?thesis by simp
next
  case False
  define b where "b = takeWhile inClass s"
  define r where "r = dropWhile inClass s"
  have s: "s = b @ r" by (simp add: b_def r_def)
  have all: "list_all inClass b"
    unfolding b_def list_all_iff using set_takeWhileD by fastforce
  have F: "FindStringSubmatch s =
    (case r of c1 # c2 # d \<Rightarrow>
             if b \<noteq> [] \<and> c1 = CHR ''.'' \<and> c2 = CHR ''v'' \<and> d \<noteq> [] \<and> list_all isDigit d
             then [s, b, d] else [] | _ \<Rightarrow> [])"
    unfolding FindStringSubmatch_def b_def r_def Let_def by (rule refl)
  from False obtain d where r: "r = CHR ''.'' # CHR ''v'' # d" and ok: "b \<noteq> []" "d \<noteq> []" "list_all isDigit d"
    unfolding F by (auto split: list.splits if_splits)
  have "FindStringSubmatch s = [s, b, d]"
    unfolding F r using ok by simp
  moreover have "namePat_matches s b d"
    unfolding namePat_matches_def using s r ok all by simp
  ultimately show ?thesis by blast
qed

lemma FindStringSubmatch_none:
  assumes "\<And>b d. \<not> namePat_matches s b d"
  shows "FindStringSubmatch s = []"
proof -
  from FindStringSubmatch_cases [of s] show ?thesis
  proof
    assume "FindStringSubmatch s = []" then show ?thesis .
  next
    assume "\<exists>b d. FindStringSubmatch s = [s, b, d] \<and> namePat_matches s b d"
    then obtain b d where "namePat_matches s b d" by blast
    with assms show ?thesis by blast
  qed
qed

lemma FindStringSubmatch_iff:
  "FindStringSubmatch s = [s, b, d] \<longleftrightarrow> namePat_matches s b d"
proof
  assume eq: "FindStringSubmatch s = [s, b, d]"
  from FindStringSubmatch_cases [of s] show "namePat_matches s b d"
  proof
    assume "FindStringSubmatch s = []" with eq show ?thesis by simp
  next
    assume "\<exists>b d. FindStringSubmatch s = [s, b, d] \<and> namePat_matches s b d"
    then obtain b' d' where "FindStringSubmatch s = [s, b', d']" "namePat_matches s b' d'" by blast
    with eq show ?thesis by simp
  qed
next
  assume "namePat_matches s b d"
  then show "FindStringSubmatch s = [s, b, d]" by (rule FindStringSubmatch_match)
qed


subsection \<open>Decoding\<close>

lemma strconv_Atoi_digits:
  assumes "d \<noteq> []" "list_all isDigit d"
  shows "strconv_Atoi d =
           (if int (digitsVal d) > 2 ^ 63 - 1 then Inl ErrRange else Inr (int (digitsVal d)))"
proof -
  from assms obtain c r where d: "d = c # r" and c: "isDigit c"
    by (cases d) auto
  from c have "c \<noteq> CHR ''-''" "c \<noteq> CHR ''+''"
    by (auto simp: isDigit_def)
  then show ?thesis
    using assms unfolding strconv_Atoi_def d by (simp add: Let_def)
qed

lemma decode_match:
  assumes "namePat_matches s b d"
  shows "decodeResourceSetName s =
           (if int (digitsVal d) > 2 ^ 63 - 1 then Panic (NumError ErrRange)
            else Return (b, word_of_int (int (digitsVal d)), True))"
proof -
  from assms have F: "FindStringSubmatch s = [s, b, d]"
    by (rule FindStringSubmatch_match)
  from assms have d: "d \<noteq> []" "list_all isDigit d"
    by (simp_all add: namePat_matches_def)
  show ?thesis
    unfolding decodeResourceSetName_def F using strconv_Atoi_digits [OF d] by simp
qed

lemma decode_no_match:
  assumes "\<And>b d. \<not> namePat_matches s b d"
  shows "decodeResourceSetName s = Return ([], 0, False)"
  using FindStringSubmatch_none [of s] assms by (simp add: decodeResourceSetName_def)

lemma resourceSetName_matches:
  assumes "b \<noteq> []" "list_all inClass b" "0 \<le> sint v"
  shows "namePat_matches (resourceSetName b v) b (showNat (nat (sint v)))"
  using assms
  by (simp add: namePat_matches_def resourceSetName_def showInt_def showNat_nonempty showNat_digits)

lemma sint32_bound: "sint (v :: int32) < 2 ^ 31"
  using sint_lt [of v] by simp

lemma decode_resourceSetName:
  assumes "b \<noteq> []" "list_all inClass b" "0 \<le> sint v"
  shows "decodeResourceSetName (resourceSetName b v) = Return (b, v, True)"
proof -
  have m: "namePat_matches (resourceSetName b v) b (showNat (nat (sint v)))"
    using assms by (rule resourceSetName_matches)
  have small: "\<not> sint v > 2 ^ 63 - 1"
    using sint32_bound [of v] by simp
  have wi: "word_of_int (sint v) = v" by simp
  show ?thesis
    using decode_match [OF m] assms(3) small wi by (simp add: digitsVal_showNat)
qed

text \<open>
  Claim C8. For every base name matching \<open>[a-z0-9]+\<close> and every non-negative version
  \<open>v\<close> (an \<open>int32\<close>, as \<open>resourceSetName\<close> takes it), decoding the encoded name
  \<open>baseName.v<version>\<close> returns \<open>(baseName, v, true)\<close>; and decoding a string that the
  pattern \<open>^([a-z0-9]+)\.v([0-9]+)$\<close> does not match returns \<open>ok = false\<close>.
\<close>

theorem C8_name_round_trip:
  "(baseName \<noteq> [] \<and> list_all inClass baseName \<and> 0 \<le> sint v \<longrightarrow>
      decodeResourceSetName (resourceSetName baseName v) = Return (baseName, v, True))
   \<and> ((\<forall>b d. \<not> namePat_matches s b d) \<longrightarrow>
      decodeResourceSetName s = Return ([], 0, False))"
  using decode_resourceSetName [of baseName v] decode_no_match [of s] by blast

lemma no_match_ex: "\<not> namePat_matches ''my-app.v1'' b d"
proof
  assume "namePat_matches ''my-app.v1'' b d"
  then have "FindStringSubmatch ''my-app.v1'' = [''my-app.v1'', b, d]"
    by (rule FindStringSubmatch_match)
  then show False
    by (simp add: FindStringSubmatch_def inClass_def isLower_def isDigit_def)
qed

theorem C8_name_round_trip_witness:
  "(''app'' \<noteq> [] \<and> list_all inClass ''app'' \<and> 0 \<le> sint (12 :: int32))
   \<and> decodeResourceSetName (resourceSetName ''app'' 12) = Return (''app'', 12, True)
   \<and> (\<forall>b d. \<not> namePat_matches ''my-app.v1'' b d)
   \<and> decodeResourceSetName ''my-app.v1'' = Return ([], 0, False)"
proof -
  have h1: "''app'' \<noteq> [] \<and> list_all inClass ''app'' \<and> 0 \<le> sint (12 :: int32)"
    by (simp add: inClass_def isLower_def isDigit_def)
  have h2: "\<forall>b d. \<not> namePat_matches ''my-app.v1'' b d"
    using no_match_ex by blast
  from C8_name_round_trip [of "''app''" 12 "''my-app.v1''"] h1 h2 show ?thesis by blast
qed


text \<open>
  Claim C10, as the code has it. \<open>decodeResourceSetName\<close> returns for every string the
  pattern does not match (\<open>ok = false\<close>) and for every matching string whose digits denote
  a number up to \<open>2^63 - 1\<close>: the base name and that number cut to 32 bits. For a matching
  string with a larger number \<open>strconv.Atoi\<close> fails with its range error and the function
  panics with it.
\<close>

theorem C10_decode_returns_or_panics:
  "((\<forall>b d. \<not> namePat_matches s b d) \<longrightarrow> decodeResourceSetName s = Return ([], 0, False))
   \<and> (namePat_matches s b d \<and> int (digitsVal d) \<le> 2 ^ 63 - 1 \<longrightarrow>
        decodeResourceSetName s = Return (b, word_of_int (int (digitsVal d)), True))
   \<and> (namePat_matches s b d \<and> int (digitsVal d) > 2 ^ 63 - 1 \<longrightarrow>
        decodeResourceSetName s = Panic (NumError ErrRange))"
  using decode_no_match [of s] decode_match [of s b d] by auto

lemma match_ex_small: "namePat_matches ''app.v12'' ''app'' ''12''"
  by (simp add: namePat_matches_def inClass_def isLower_def isDigit_def)

lemma match_ex_large:
  "namePat_matches ''app.v9223372036854775808'' ''app'' ''9223372036854775808''"
  by (simp add: namePat_matches_def inClass_def isLower_def isDigit_def)

theorem C10_decode_returns_or_panics_witness:
  "(namePat_matches ''app.v12'' ''app'' ''12'' \<and> int (digitsVal ''12'') \<le> 2 ^ 63 - 1)
   \<and> decodeResourceSetName ''app.v12'' = Return (''app'', 12, True)
   \<and> (namePat_matches ''app.v9223372036854775808'' ''app'' ''9223372036854775808''
        \<and> int (digitsVal ''9223372036854775808'') > 2 ^ 63 - 1)
   \<and> decodeResourceSetName ''app.v9223372036854775808'' = Panic (NumError ErrRange)"
proof -
  have v1: "digitsVal ''12'' = 12"
    by (simp add: digitsVal_def digitVal_def)
  have v2: "digitsVal ''9223372036854775808'' = 9223372036854775808"
    by (simp add: digitsVal_def digitVal_def)
  from C10_decode_returns_or_panics [of "''app.v12''" "''app''" "''12''"] match_ex_small v1
  have a: "decodeResourceSetName ''app.v12'' = Return (''app'', 12, True)" by simp
  from C10_decode_returns_or_panics
         [of "''app.v9223372036854775808''" "''app''" "''9223372036854775808''"]
       match_ex_large v2
  have b: "decodeResourceSetName ''app.v9223372036854775808'' = Panic (NumError ErrRange)"
    by simp
  from a b match_ex_small match_ex_large v1 v2 show ?thesis by simp
qed

theorem C10_decode_panics_counterexample:
  "decodeResourceSetName ''app.v9223372036854775808'' = Panic (NumError ErrRange)"
  by (simp add: decodeResourceSetName_def FindStringSubmatch_def inClass_def isLower_def
        isDigit_def strconv_Atoi_def digitsVal_def digitVal_def)

section \<open>Properties of the owner references\<close>

lemmas eval_decode = decodeResourceSetName_def FindStringSubmatch_def inClass_def isLower_def
        isDigit_def strconv_Atoi_def digitsVal_def digitVal_def

lemma setOwnerRef_result:
  "setOwnerRef rs resource =
     (case decodeResourceSetName (rs_Name rs) of
        Panic p \<Rightarrow> Panic p
      | Return (name, version, ok) \<Rightarrow>
          if \<not> ok then Return (Some (''invalid ResourceSet name '' @ quote (rs_Name rs)), resource)
          else Return (None,
                 resource\<lparr>GetOwnerReferences :=
                   [\<lparr>or_APIVersion = ''apps.cloudrobotics.com/v1alpha1'',
                     or_Kind = ''Resources'', or_Name = rs_Name rs, or_UID = rs_UID rs,
                     or_Controller = None, or_BlockOwnerDeletion = Some True\<rparr>]\<rparr>))"
  by (simp add: setOwnerRef_def SetOwnerReferences_def split: go.splits prod.splits)

text \<open>
  Claim C9. A successful \<open>setOwnerRef\<close> leaves the resource with exactly one owner
  reference, the one to the resource set it was given (the fixed kind, the set's name and
  UID, block-owner-deletion set), whatever owner references of any kind it had before; no
  other field of the resource changes.
\<close>

theorem C9_setOwnerRef_single_owner:
  "setOwnerRef rs resource = Return (None, resource') \<Longrightarrow>
     GetOwnerReferences resource' =
       [\<lparr>or_APIVersion = ''apps.cloudrobotics.com/v1alpha1'', or_Kind = ''Resources'',
         or_Name = rs_Name rs, or_UID = rs_UID rs, or_Controller = None,
         or_BlockOwnerDeletion = Some True\<rparr>]
     \<and> resource' = resource\<lparr>GetOwnerReferences := GetOwnerReferences resource'\<rparr>"
  unfolding setOwnerRef_result by (auto split: go.splits prod.splits if_splits)

text \<open>
  Claim C1 says that a resource carrying an owner reference of the relation kind with another
  base name makes \<open>setOwnerRef\<close> fail, and so does one with the same base name and a
  greater version. The loop that checks this ranges over the empty local slice, not over the
  owner references of the resource, so the checks never run: with the resource set
  \<open>app.v2\<close>, a resource owned by \<open>other.v1\<close> and one owned by \<open>app.v7\<close> are both
  accepted and relinked.
\<close>

theorem C1_setOwnerRef_accepts_conflicting_owner:
  "setOwnerRef (exampleSet ''app.v2'') (exampleConfigMap ''a'' [exampleOwner ''other.v1''])
     = Return (None, exampleConfigMap ''a''
         [\<lparr>or_APIVersion = ''apps.cloudrobotics.com/v1alpha1'', or_Kind = ''Resources'',
           or_Name = ''app.v2'', or_UID = ''uid-1'', or_Controller = None,
           or_BlockOwnerDeletion = Some True\<rparr>])
   \<and> setOwnerRef (exampleSet ''app.v2'') (exampleConfigMap ''a'' [exampleOwner ''app.v7''])
     = Return (None, exampleConfigMap ''a''
         [\<lparr>or_APIVersion = ''apps.cloudrobotics.com/v1alpha1'', or_Kind = ''Resources'',
           or_Name = ''app.v2'', or_UID = ''uid-1'', or_Controller = None,
           or_BlockOwnerDeletion = Some True\<rparr>])"
  by (simp add: setOwnerRef_def SetOwnerReferences_def exampleSet_def exampleConfigMap_def
        exampleOwner_def eval_decode)

theorem C9_setOwnerRef_single_owner_witness:
  "setOwnerRef (exampleSet ''app.v3'')
       (exampleConfigMap ''b'' [exampleOwner ''app.v1'', exampleOwner ''app.v2''])
     = Return (None, exampleConfigMap ''b''
         [\<lparr>or_APIVersion = ''apps.cloudrobotics.com/v1alpha1'', or_Kind = ''Resources'',
           or_Name = ''app.v3'', or_UID = ''uid-1'', or_Controller = None,
           or_BlockOwnerDeletion = Some True\<rparr>])
   \<and> GetOwnerReferences (exampleConfigMap ''b''
         [\<lparr>or_APIVersion = ''apps.cloudrobotics.com/v1alpha1'', or_Kind = ''Resources'',
           or_Name = ''app.v3'', or_UID = ''uid-1'', or_Controller = None,
           or_BlockOwnerDeletion = Some True\<rparr>])
       = [\<lparr>or_APIVersion = ''apps.cloudrobotics.com/v1alpha1'', or_Kind = ''Resources'',
           or_Name = rs_Name (exampleSet ''app.v3''), or_UID = rs_UID (exampleSet ''app.v3''),
           or_Controller = None, or_BlockOwnerDeletion = Some True\<rparr>]"
proof -
  have run: "setOwnerRef (exampleSet ''app.v3'')
       (exampleConfigMap ''b'' [exampleOwner ''app.v1'', exampleOwner ''app.v2''])
     = Return (None, exampleConfigMap ''b''
         [\<lparr>or_APIVersion = ''apps.cloudrobotics.com/v1alpha1'', or_Kind = ''Resources'',
           or_Name = ''app.v3'', or_UID = ''uid-1'', or_Controller = None,
           or_BlockOwnerDeletion = Some True\<rparr>])"
    by (simp add: setOwnerRef_def SetOwnerReferences_def exampleSet_def exampleConfigMap_def
          exampleOwner_def eval_decode)
  from C9_setOwnerRef_single_owner [OF run] run show ?thesis by simp
qed

section \<open>Properties of the versions\<close>

lemma sint_of_nat_small:
  assumes "n < 2 ^ 31"
  shows "sint (of_nat n :: int32) = int n"
proof -
  have a: "sint (word_of_int (int n) :: int32) = signed_take_bit (LENGTH(32) - 1) (int n)"
    by (rule sint_sbintrunc')
  have l: "LENGTH(32) - 1 = 31" by simp
  have b: "signed_take_bit 31 (int n) = int n"
    using assms by (intro signed_take_bit_int_eq_self) auto
  have c: "(of_nat n :: int32) = word_of_int (int n)" by simp
  show ?thesis unfolding c a l b ..
qed

lemma namePat_matches_unique:
  assumes "namePat_matches n b d" "namePat_matches n b' d'"
  shows "b = b' \<and> d = d'"
  using assms [THEN FindStringSubmatch_match] by simp

lemma versionsOf_no_match:
  assumes "FindStringSubmatch n = []"
  shows "versionsOf baseName (n # names) = versionsOf baseName names"
  using assms by simp

lemma versionsOf_match:
  assumes "namePat_matches n b d"
  shows "versionsOf baseName (n # names) =
           (if b = baseName then digitsVal d # versionsOf baseName names
            else versionsOf baseName names)"
  using FindStringSubmatch_match [OF assms] by simp

lemma nextLoop_max:
  assumes "\<forall>n\<in>set names. \<forall>b d. namePat_matches n b d \<longrightarrow> int (digitsVal d) \<le> 2 ^ 63 - 1"
    and "\<forall>n\<in>set names. \<forall>d. namePat_matches n baseName d \<longrightarrow> digitsVal d < 2 ^ 31"
    and "cur < 2 ^ 31"
  shows "nextLoop baseName names (of_nat cur) =
           Return (of_nat (Max (insert cur (set (versionsOf baseName names)))))"
  using assms
proof (induction names arbitrary: cur)
  case Nil
  then show ?case by simp
next
  case (Cons n names)
  from Cons.prems have rest1:
    "\<forall>n\<in>set names. \<forall>b d. namePat_matches n b d \<longrightarrow> int (digitsVal d) \<le> 2 ^ 63 - 1"
    and rest2: "\<forall>n\<in>set names. \<forall>d. namePat_matches n baseName d \<longrightarrow> digitsVal d < 2 ^ 31"
    by simp_all
  note IH = Cons.IH [OF rest1 rest2]
  from FindStringSubmatch_cases [of n] show ?case
  proof
    assume none: "FindStringSubmatch n = []"
    then have "decodeResourceSetName n = Return ([], 0, False)"
      by (simp add: decodeResourceSetName_def)
    then show ?thesis
      using IH [OF Cons.prems(3)] versionsOf_no_match [OF none] by simp
  next
    assume "\<exists>b d. FindStringSubmatch n = [n, b, d] \<and> namePat_matches n b d"
    then obtain b d where m: "namePat_matches n b d" by blast
    from Cons.prems(1) m have "int (digitsVal d) \<le> 2 ^ 63 - 1" by simp
    with decode_match [OF m]
    have dec: "decodeResourceSetName n = Return (b, of_nat (digitsVal d), True)" by simp
    show ?thesis
    proof (cases "b = baseName")
      case False
      then show ?thesis
        using dec IH [OF Cons.prems(3)] versionsOf_match [OF m] by simp
    next
      case True
      with Cons.prems(2) m have small: "digitsVal d < 2 ^ 31" by simp
      have sv: "sint (of_nat (digitsVal d) :: int32) = int (digitsVal d)"
        using small by (rule sint_of_nat_small)
      have sc: "sint (of_nat cur :: int32) = int cur"
        using Cons.prems(3) by (rule sint_of_nat_small)
      have vs: "versionsOf baseName (n # names) = digitsVal d # versionsOf baseName names"
        using versionsOf_match [OF m] True by simp
      show ?thesis
      proof (cases "digitsVal d > cur")
        case True
        have "Max (insert cur (insert (digitsVal d) (set (versionsOf baseName names))))
                = Max (insert (digitsVal d) (set (versionsOf baseName names)))"
        proof -
          have "digitsVal d \<le> Max (insert (digitsVal d) (set (versionsOf baseName names)))"
            by (rule Max_ge) auto
          with True
          have "cur \<le> Max (insert (digitsVal d) (set (versionsOf baseName names)))"
            by linarith
          then show ?thesis by (simp add: max_absorb2)
        qed
        then show ?thesis
          using dec \<open>b = baseName\<close> sv sc True IH [OF small] vs by simp
      next
        case False
        have "Max (insert cur (insert (digitsVal d) (set (versionsOf baseName names))))
                = Max (insert cur (set (versionsOf baseName names)))"
        proof -
          have "cur \<le> Max (insert cur (set (versionsOf baseName names)))"
            by (rule Max_ge) auto
          with False
          have "digitsVal d \<le> Max (insert cur (set (versionsOf baseName names)))"
            by linarith
          then show ?thesis by (simp add: insert_commute [of cur] max_absorb2)
        qed
        then show ?thesis
          using dec \<open>b = baseName\<close> sv sc False IH [OF Cons.prems(3)] vs by simp
      qed
    qed
  qed
qed


lemma versionsOf_append:
  "versionsOf baseName (xs @ ys) = versionsOf baseName xs @ versionsOf baseName ys"
  by (induction xs) (auto split: list.splits)

lemma versionsOf_member:
  assumes "n \<in> set names" "namePat_matches n baseName d"
  shows "digitsVal d \<in> set (versionsOf baseName names)"
  using assms(1)
proof (induction names)
  case Nil
  then show ?case by simp
next
  case (Cons x names)
  show ?case
  proof (cases "x = n")
    case True
    then show ?thesis using versionsOf_match [OF assms(2), of baseName names] by simp
  next
    case False
    with Cons have "digitsVal d \<in> set (versionsOf baseName names)" by simp
    then show ?thesis by (auto split: list.splits)
  qed
qed

lemma synk_next_listed:
  assumes list: "List_ResourceSets c s = (Inr items, s1)"
    and range: "\<forall>n\<in>set (map GetName items). \<forall>b d.
                  namePat_matches n b d \<longrightarrow> int (digitsVal d) \<le> 2 ^ 63 - 1"
    and small: "\<forall>n\<in>set (map GetName items). \<forall>d.
                  namePat_matches n baseName d \<longrightarrow> digitsVal d < 2 ^ 31 - 1"
  shows "synk_next c baseName s =
           Return ((of_nat (Max (insert 0 (set (versionsOf baseName (map GetName items)))) + 1),
                    None), s1)"
    and "sint (of_nat (Max (insert 0 (set (versionsOf baseName (map GetName items)))) + 1)
               :: int32)
           = int (Max (insert 0 (set (versionsOf baseName (map GetName items))))) + 1"
proof -
  let ?names = "map GetName items"
  let ?m = "Max (insert 0 (set (versionsOf baseName ?names)))"
  from small have small': "\<forall>n\<in>set ?names. \<forall>d.
      namePat_matches n baseName d \<longrightarrow> digitsVal d < 2 ^ 31"
    by fastforce
  have loop: "nextLoop baseName ?names 0 = Return (of_nat ?m)"
    using nextLoop_max [OF range small', of 0] by simp
  show "synk_next c baseName s = Return ((of_nat (?m + 1), None), s1)"
    by (simp add: synk_next_def list loop)
  have bound: "\<forall>v\<in>set (versionsOf baseName names). v < 2 ^ 31 - 1"
    if "\<forall>n\<in>set names. \<forall>d. namePat_matches n baseName d \<longrightarrow> digitsVal d < 2 ^ 31 - 1"
    for names
    using that
  proof (induction names)
    case Nil
    then show ?case by simp
  next
    case (Cons n names)
    from FindStringSubmatch_cases [of n] show ?case
    proof
      assume "FindStringSubmatch n = []"
      with Cons show ?thesis by simp
    next
      assume "\<exists>b d. FindStringSubmatch n = [n, b, d] \<and> namePat_matches n b d"
      then obtain b d where m: "namePat_matches n b d" by blast
      with Cons show ?thesis using versionsOf_match [OF m, of baseName names] by auto
    qed
  qed
  have "?m < 2 ^ 31 - 1"
    using bound [OF small] by (subst Max_less_iff) auto
  then have "?m + 1 < 2 ^ 31" by simp
  then show "sint (of_nat (?m + 1) :: int32) = int ?m + 1"
    using sint_of_nat_small [of "?m + 1"] by simp
qed

lemma synk_next_list_fails:
  assumes "List_ResourceSets c s = (Inl err, s1)"
  shows "synk_next c baseName s =
           Return ((0, Some (errors_Wrap (Error err) ''list existing ResourceSets'')), s1)"
  by (simp add: synk_next_def assms)

lemma FindStringSubmatch_resourceSetName:
  assumes "b \<noteq> []" "list_all inClass b" "v < 2 ^ 31"
  shows "FindStringSubmatch (resourceSetName b (of_nat v)) =
           [resourceSetName b (of_nat v), b, showNat v]"
proof -
  have "sint (of_nat v :: int32) = int v"
    using assms(3) by (rule sint_of_nat_small)
  then have "namePat_matches (resourceSetName b (of_nat v)) b (showNat v)"
    using resourceSetName_matches [of b "of_nat v"] assms(1,2) by simp
  then show ?thesis by (rule FindStringSubmatch_match)
qed

lemma versions_below:
  assumes "Max (insert 0 (set (versionsOf baseName names))) = m" "m < bound"
  shows "\<forall>n\<in>set names. \<forall>d. namePat_matches n baseName d \<longrightarrow> digitsVal d < bound"
proof (intro ballI allI impI)
  fix n d
  assume "n \<in> set names" "namePat_matches n baseName d"
  then have "digitsVal d \<in> set (versionsOf baseName names)"
    by (rule versionsOf_member)
  then have "digitsVal d \<le> Max (insert 0 (set (versionsOf baseName names)))"
    by (intro Max_ge) auto
  with assms show "digitsVal d < bound" by simp
qed

lemma versions_after_create:
  assumes "baseName \<noteq> []" "list_all inClass baseName"
    and range: "\<forall>n\<in>set names. \<forall>b d. namePat_matches n b d \<longrightarrow> int (digitsVal d) \<le> 2 ^ 63 - 1"
    and mx: "Max (insert 0 (set (versionsOf baseName names))) = m"
    and m1: "m + 1 < 2 ^ 31"
  shows "Max (insert 0 (set (versionsOf baseName
                (names @ [resourceSetName baseName (of_nat (m + 1) :: int32)])))) = m + 1"
    and "\<forall>n\<in>set (names @ [resourceSetName baseName (of_nat (m + 1) :: int32)]). \<forall>b d.
           namePat_matches n b d \<longrightarrow> int (digitsVal d) \<le> 2 ^ 63 - 1"
proof -
  let ?new = "resourceSetName baseName (of_nat (m + 1) :: int32)"
  have F: "FindStringSubmatch ?new = [?new, baseName, showNat (m + 1)]"
    using FindStringSubmatch_resourceSetName [OF assms(1,2) m1] .
  have single: "versionsOf baseName [?new] = [m + 1]"
    unfolding versionsOf.simps F by (simp add: digitsVal_showNat)
  have vs: "versionsOf baseName (names @ [?new]) = versionsOf baseName names @ [m + 1]"
    by (simp only: versionsOf_append single)
  show "Max (insert 0 (set (versionsOf baseName (names @ [?new])))) = m + 1"
  proof -
    have "Max (insert (m + 1) (insert 0 (set (versionsOf baseName names))))
            = max (m + 1) (Max (insert 0 (set (versionsOf baseName names))))"
      by (rule Max_insert) auto
    then show ?thesis
      unfolding vs using mx by (simp add: insert_commute)
  qed
  show "\<forall>n\<in>set (names @ [?new]). \<forall>b d.
      namePat_matches n b d \<longrightarrow> int (digitsVal d) \<le> 2 ^ 63 - 1"
  proof (intro ballI allI impI)
    fix n b d
    assume n: "n \<in> set (names @ [?new])" and m: "namePat_matches n b d"
    show "int (digitsVal d) \<le> 2 ^ 63 - 1"
    proof (cases "n = ?new")
      case True
      with m F have "d = showNat (m + 1)"
        using FindStringSubmatch_match [OF m] by simp
      then have "digitsVal d = m + 1" by (simp add: digitsVal_showNat)
      with m1 show ?thesis by simp
    next
      case False
      with n have "n \<in> set names" by simp
      with range m show ?thesis by blast
    qed
  qed
qed

lemmas eval_pattern = FindStringSubmatch_def inClass_def isLower_def isDigit_def digitsVal_def
  digitVal_def

lemmas eval_cluster = exampleCluster_def startState_def exampleRecord_def called_def
  List_ResourceSets_def errors_Wrap_def

section \<open>Properties of applyOne\<close>

lemma calls_called [simp]: "calls (snd (called ev answer s)) = calls s @ [ev]"
  by (simp add: called_def)

lemma calls_invoke [simp]: "calls (invoke r replace s) = calls s @ [EvApplyOne r replace]"
  by (simp add: invoke_def)

lemma world_invoke [simp]: "world (invoke r replace s) = world s"
  by (simp add: invoke_def)

lemma calls_wrappers:
  "RESTMapping c gk v s = (a1, s1) \<Longrightarrow> calls s1 = calls s @ [EvRESTMapping gk v]"
  "Get c client n s = (a2, s2) \<Longrightarrow> calls s2 = calls s @ [EvGet client n]"
  "Create c client r s = (a3, s3) \<Longrightarrow> calls s3 = calls s @ [EvCreate client r]"
  "Update c client r s = (a4, s4) \<Longrightarrow> calls s4 = calls s @ [EvUpdate client r]"
  "Delete c client n s = (a5, s5) \<Longrightarrow> calls s5 = calls s @ [EvDelete client n]"
  by (auto simp: RESTMapping_def Get_def Create_def Update_def Delete_def called_def)

lemma calls_after_update:
  assumes "RESTMapping c gk v (invoke r0 replace s) = (a1, s1)" "Get c client n s1 = (a2, s2)"
    and "Update c client r1 s2 = (a3, s3)"
  shows "calls s3 = calls s @
           [EvApplyOne r0 replace, EvRESTMapping gk v, EvGet client n, EvUpdate client r1]"
  using calls_wrappers(1) [OF assms(1)] calls_wrappers(2) [OF assms(2)]
    calls_wrappers(4) [OF assms(3)]
  by simp

lemma calls_after_create:
  assumes "RESTMapping c gk v (invoke r0 replace s) = (a1, s1)" "Get c client n s1 = (a2, s2)"
    and "Create c client r1 s2 = (a3, s3)"
  shows "calls s3 = calls s @
           [EvApplyOne r0 replace, EvRESTMapping gk v, EvGet client n, EvCreate client r1]"
  using calls_wrappers(1) [OF assms(1)] calls_wrappers(2) [OF assms(2)]
    calls_wrappers(3) [OF assms(3)]
  by simp

lemma calls_after_replace:
  assumes "RESTMapping c gk v (invoke r0 replace s) = (a1, s1)" "Get c client n s1 = (a2, s2)"
    and "Update c client r1 s2 = (a3, s3)" "Delete c client n' s3 = (a4, s4)"
    and "Create c client r2 s4 = (a5, s5)"
  shows "calls s5 = calls s @
           [EvApplyOne r0 replace, EvRESTMapping gk v, EvGet client n, EvUpdate client r1,
            EvDelete client n', EvCreate client r2]"
  using calls_after_update [OF assms(1-3)] calls_wrappers(5) [OF assms(4)]
    calls_wrappers(3) [OF assms(5)]
  by simp

text \<open>
  Claim C2. The decision procedure of \<open>applyOne\<close>, branch by branch, on the answers of
  the collaborators: the action, the error, the resource as it is left, the state, and the
  calls made. The calls start in the state \<open>invoke r replace s\<close>, in which the invocation
  is noted. The mapping is asked for the group and kind and for the version that
  \<open>GroupVersionKind\<close> reads off the resource. When the object is found, the resource sent
  to the update, and left behind when the update is the last call, is \<open>r\<close> with the
  resource version of the object found; the resource created after the delete, and left
  behind then, is \<open>r\<close> with the empty resource version.
\<close>

theorem C2_applyOne_decision_procedure:
  "(GetName r = [] \<longrightarrow>
      applyOne c rs r replace s
        = ((ResourceActionNone, Some ''missing resource name'', r), invoke r replace s))
   \<and> (GetName r \<noteq> [] \<longrightarrow>
      (RESTMapping c (Group (GroupVersionKind r), Kind (GroupVersionKind r))
           (Version (GroupVersionKind r)) (invoke r replace s) = (Inl e1, s1) \<longrightarrow>
         applyOne c rs r replace s
           = ((ResourceActionNone, Some (errors_Wrap (Error e1) ''get REST mapping''), r), s1))
      \<and> (RESTMapping c (Group (GroupVersionKind r), Kind (GroupVersionKind r))
           (Version (GroupVersionKind r)) (invoke r replace s) = (Inr m, s1) \<longrightarrow>
         (Get c (clientFor m r) (GetName r) s1 = (Inl e2, s2) \<and> \<not> IsNotFound e2 \<longrightarrow>
            applyOne c rs r replace s
              = ((ResourceActionNone, Some (errors_Wrap (Error e2) ''get resource''), r), s2))
         \<and> (Get c (clientFor m r) (GetName r) s1 = (Inl e2, s2) \<and> IsNotFound e2 \<longrightarrow>
            (Create c (clientFor m r) r s2 = (Inl e3, s3) \<longrightarrow>
               applyOne c rs r replace s
                 = ((ResourceActionCreate, Some (errors_Wrap (Error e3) ''create resource''), r),
                    s3))
            \<and> (Create c (clientFor m r) r s2 = (Inr x3, s3) \<longrightarrow>
               applyOne c rs r replace s = ((ResourceActionCreate, None, r), s3)
               \<and> calls s3 = calls s @
                   [EvApplyOne r replace,
                    EvRESTMapping (Group (GroupVersionKind r), Kind (GroupVersionKind r))
                      (Version (GroupVersionKind r)),
                    EvGet (clientFor m r) (GetName r), EvCreate (clientFor m r) r]))
         \<and> (Get c (clientFor m r) (GetName r) s1 = (Inr prev, s2) \<longrightarrow>
            (Update c (clientFor m r) (r\<lparr>GetResourceVersion := GetResourceVersion prev\<rparr>) s2
               = (Inr x3, s3) \<longrightarrow>
               applyOne c rs r replace s
                 = ((ResourceActionUpdate, None,
                     r\<lparr>GetResourceVersion := GetResourceVersion prev\<rparr>), s3)
               \<and> calls s3 = calls s @
                   [EvApplyOne r replace,
                    EvRESTMapping (Group (GroupVersionKind r), Kind (GroupVersionKind r))
                      (Version (GroupVersionKind r)),
                    EvGet (clientFor m r) (GetName r),
                    EvUpdate (clientFor m r) (r\<lparr>GetResourceVersion := GetResourceVersion prev\<rparr>)])
            \<and> (Update c (clientFor m r) (r\<lparr>GetResourceVersion := GetResourceVersion prev\<rparr>) s2
               = (Inl e3, s3) \<longrightarrow>
               (\<not> replace \<longrightarrow>
                  applyOne c rs r replace s
                    = ((ResourceActionUpdate, Some (errors_Wrap (Error e3) ''update resource''),
                        r\<lparr>GetResourceVersion := GetResourceVersion prev\<rparr>), s3)
                  \<and> calls s3 = calls s @
                      [EvApplyOne r replace,
                       EvRESTMapping (Group (GroupVersionKind r), Kind (GroupVersionKind r))
                         (Version (GroupVersionKind r)),
                       EvGet (clientFor m r) (GetName r),
                       EvUpdate (clientFor m r)
                         (r\<lparr>GetResourceVersion := GetResourceVersion prev\<rparr>)])
               \<and> (replace \<longrightarrow>
                  (Delete c (clientFor m r) (GetName prev) s3 = (Some e4, s4) \<longrightarrow>
                     applyOne c rs r replace s
                       = ((ResourceActionReplace,
                           Some (errors_Wrap (Error e4) ''delete resource''),
                           r\<lparr>GetResourceVersion := GetResourceVersion prev\<rparr>), s4))
                  \<and> (Delete c (clientFor m r) (GetName prev) s3 = (None, s4) \<longrightarrow>
                     (Create c (clientFor m r) (r\<lparr>GetResourceVersion := []\<rparr>) s4
                        = (Inl e5, s5) \<longrightarrow>
                        applyOne c rs r replace s
                          = ((ResourceActionReplace,
                              Some (errors_Wrap (Error e5) ''create resource''),
                              r\<lparr>GetResourceVersion := []\<rparr>), s5))
                     \<and> (Create c (clientFor m r) (r\<lparr>GetResourceVersion := []\<rparr>) s4
                        = (Inr x5, s5) \<longrightarrow>
                        applyOne c rs r replace s
                          = ((ResourceActionReplace, None, r\<lparr>GetResourceVersion := []\<rparr>), s5)
                        \<and> calls s5 = calls s @
                            [EvApplyOne r replace,
                             EvRESTMapping
                               (Group (GroupVersionKind r), Kind (GroupVersionKind r))
                               (Version (GroupVersionKind r)),
                             EvGet (clientFor m r) (GetName r),
                             EvUpdate (clientFor m r)
                               (r\<lparr>GetResourceVersion := GetResourceVersion prev\<rparr>),
                             EvDelete (clientFor m r) (GetName prev),
                             EvCreate (clientFor m r) (r\<lparr>GetResourceVersion := []\<rparr>)])))))))"
  by (auto simp: applyOne_def Let_def clientFor_def errors_New_def SetResourceVersion_def
        intro: calls_after_create calls_after_update calls_after_replace)

lemmas eval_calls = exampleCluster_def startState_def exampleConfigMap_def called_def
  RESTMapping_def Get_def Create_def Update_def Delete_def GroupVersionKind_def
  SetResourceVersion_def clientFor_def errors_Wrap_def invoke_def

theorem C2_applyOne_decision_procedure_witness:
  "applyOne
     (exampleCluster (Inr [])
        (\<lambda>n. Inr \<lparr>GetAPIVersion = ''v1'', GetKind = ''ConfigMap'', GetNamespace = ''default'',
                   GetName = n, GetResourceVersion = ''7'', GetOwnerReferences = [],
                   Object = ''stored''\<rparr>)
        (\<lambda>r. Inl (ApiError False ''field is immutable'')) [])
     None
     \<lparr>GetAPIVersion = ''v1'', GetKind = ''ConfigMap'', GetNamespace = ''default'',
      GetName = ''a'', GetResourceVersion = ''3'', GetOwnerReferences = [],
      Object = ''wanted''\<rparr>
     True startState
   = ((ResourceActionReplace, None,
       \<lparr>GetAPIVersion = ''v1'', GetKind = ''ConfigMap'', GetNamespace = ''default'',
        GetName = ''a'', GetResourceVersion = [], GetOwnerReferences = [],
        Object = ''wanted''\<rparr>),
      \<lparr>world = 5,
       calls = [EvApplyOne
                  \<lparr>GetAPIVersion = ''v1'', GetKind = ''ConfigMap'', GetNamespace = ''default'',
                   GetName = ''a'', GetResourceVersion = ''3'', GetOwnerReferences = [],
                   Object = ''wanted''\<rparr> True,
                EvRESTMapping ([], ''ConfigMap'') ''v1'',
                EvGet (([], ''v1'', ''things''), Some ''default'') ''a'',
                EvUpdate (([], ''v1'', ''things''), Some ''default'')
                  \<lparr>GetAPIVersion = ''v1'', GetKind = ''ConfigMap'', GetNamespace = ''default'',
                   GetName = ''a'', GetResourceVersion = ''7'', GetOwnerReferences = [],
                   Object = ''wanted''\<rparr>,
                EvDelete (([], ''v1'', ''things''), Some ''default'') ''a'',
                EvCreate (([], ''v1'', ''things''), Some ''default'')
                  \<lparr>GetAPIVersion = ''v1'', GetKind = ''ConfigMap'', GetNamespace = ''default'',
                   GetName = ''a'', GetResourceVersion = [], GetOwnerReferences = [],
                   Object = ''wanted''\<rparr>]\<rparr>)
   \<and> applyOne
       (exampleCluster (Inr [])
          (\<lambda>n. Inr \<lparr>GetAPIVersion = ''v1'', GetKind = ''ConfigMap'', GetNamespace = ''default'',
                     GetName = n, GetResourceVersion = ''7'', GetOwnerReferences = [],
                     Object = ''stored''\<rparr>)
          (\<lambda>r. Inl (ApiError False ''field is immutable'')) [])
       None
       \<lparr>GetAPIVersion = ''v1'', GetKind = ''ConfigMap'', GetNamespace = ''default'',
        GetName = ''a'', GetResourceVersion = ''3'', GetOwnerReferences = [],
        Object = ''wanted''\<rparr>
       False startState
     = ((ResourceActionUpdate, Some ''update resource: field is immutable'',
         \<lparr>GetAPIVersion = ''v1'', GetKind = ''ConfigMap'', GetNamespace = ''default'',
          GetName = ''a'', GetResourceVersion = ''7'', GetOwnerReferences = [],
          Object = ''wanted''\<rparr>),
        \<lparr>world = 3,
         calls = [EvApplyOne
                    \<lparr>GetAPIVersion = ''v1'', GetKind = ''ConfigMap'', GetNamespace = ''default'',
                     GetName = ''a'', GetResourceVersion = ''3'', GetOwnerReferences = [],
                     Object = ''wanted''\<rparr> False,
                  EvRESTMapping ([], ''ConfigMap'') ''v1'',
                  EvGet (([], ''v1'', ''things''), Some ''default'') ''a'',
                  EvUpdate (([], ''v1'', ''things''), Some ''default'')
                    \<lparr>GetAPIVersion = ''v1'', GetKind = ''ConfigMap'',
                     GetNamespace = ''default'', GetName = ''a'', GetResourceVersion = ''7'',
                     GetOwnerReferences = [], Object = ''wanted''\<rparr>]\<rparr>)"
proof -
  let ?prev = "\<lambda>n. \<lparr>GetAPIVersion = ''v1'', GetKind = ''ConfigMap'', GetNamespace = ''default'',
                   GetName = n, GetResourceVersion = ''7'', GetOwnerReferences = [],
                   Object = ''stored''\<rparr>"
  let ?c = "exampleCluster (Inr []) (\<lambda>n. Inr (?prev n))
              (\<lambda>r. Inl (ApiError False ''field is immutable'')) []"
  let ?r = "\<lambda>v. \<lparr>GetAPIVersion = ''v1'', GetKind = ''ConfigMap'', GetNamespace = ''default'',
      GetName = ''a'', GetResourceVersion = v, GetOwnerReferences = [],
      Object = ''wanted''\<rparr>"
  let ?m = "\<lparr>map_Resource = ([], ''v1'', ''things''), map_Scope = RESTScopeNameNamespace\<rparr>"
  let ?cl = "(([], ''v1'', ''things''), Some ''default'')"
  let ?e = "ApiError False ''field is immutable''"
  let ?s1 = "\<lambda>rep. \<lparr>world = 1 :: nat,
              calls = [EvApplyOne (?r ''3'') rep, EvRESTMapping ([], ''ConfigMap'') ''v1'']\<rparr>"
  let ?s2 = "\<lambda>rep. \<lparr>world = 2 :: nat,
              calls = [EvApplyOne (?r ''3'') rep, EvRESTMapping ([], ''ConfigMap'') ''v1'',
                       EvGet ?cl ''a'']\<rparr>"
  let ?s3 = "\<lambda>rep. \<lparr>world = 3 :: nat,
              calls = [EvApplyOne (?r ''3'') rep, EvRESTMapping ([], ''ConfigMap'') ''v1'',
                       EvGet ?cl ''a'', EvUpdate ?cl (?r ''7'')]\<rparr>"
  let ?s4 = "\<lparr>world = 4 :: nat,
              calls = [EvApplyOne (?r ''3'') True, EvRESTMapping ([], ''ConfigMap'') ''v1'',
                       EvGet ?cl ''a'', EvUpdate ?cl (?r ''7''), EvDelete ?cl ''a'']\<rparr>"
  let ?s5 = "\<lparr>world = 5 :: nat,
              calls = [EvApplyOne (?r ''3'') True, EvRESTMapping ([], ''ConfigMap'') ''v1'',
                       EvGet ?cl ''a'', EvUpdate ?cl (?r ''7''), EvDelete ?cl ''a'',
                       EvCreate ?cl (?r [])]\<rparr>"
  have name: "GetName (?r ''3'') \<noteq> []" by simp
  have cl: "clientFor ?m (?r ''3'') = ?cl" by (simp add: clientFor_def)
  have rv: "(?r ''3'')\<lparr>GetResourceVersion := GetResourceVersion (?prev ''a'')\<rparr> = ?r ''7''"
    "(?r ''3'')\<lparr>GetResourceVersion := []\<rparr> = ?r []" "GetName (?prev ''a'') = ''a''"
    "GetName (?r ''3'') = ''a''"
    by simp_all
  have h1: "RESTMapping ?c (Group (GroupVersionKind (?r ''3'')), Kind (GroupVersionKind (?r ''3'')))
              (Version (GroupVersionKind (?r ''3''))) (invoke (?r ''3'') rep startState)
              = (Inr ?m, ?s1 rep)" for rep
    by (simp add: eval_calls)
  have h2: "Get ?c ?cl ''a'' (?s1 rep) = (Inr (?prev ''a''), ?s2 rep)" for rep
    by (simp add: eval_calls)
  have h3: "Update ?c ?cl (?r ''7'') (?s2 rep) = (Inl ?e, ?s3 rep)" for rep
    by (simp add: eval_calls)
  have h4: "Delete ?c ?cl ''a'' (?s3 True) = (None, ?s4)" by (simp add: eval_calls)
  have h5: "Create ?c ?cl (?r []) ?s4 = (Inr (?r []), ?s5)" by (simp add: eval_calls)
  note inst = C2_applyOne_decision_procedure
      [where c = ?c and r = "?r ''3''" and s = startState and m = ?m and prev = "?prev ''a''"
         and ?e3.0 = ?e and ?s4.0 = ?s4 and ?x5.0 = "?r []"
         and ?s5.0 = ?s5 and rs = None, unfolded cl rv]
  from inst [where replace = True and ?s1.0 = "?s1 True" and ?s2.0 = "?s2 True"
               and ?s3.0 = "?s3 True"]
    name h1 [of True] h2 [of True] h3 [of True] h4 h5
  have a: "applyOne ?c None (?r ''3'') True startState
             = ((ResourceActionReplace, None, ?r []), ?s5)"
    by simp
  from inst [where replace = False and ?s1.0 = "?s1 False" and ?s2.0 = "?s2 False"
               and ?s3.0 = "?s3 False"]
    name h1 [of False] h2 [of False] h3 [of False]
  have b: "applyOne ?c None (?r ''3'') False startState
             = ((ResourceActionUpdate, Some (errors_Wrap (Error ?e) ''update resource''),
                 ?r ''7''), ?s3 False)"
    by simp
  from a b show ?thesis by (simp add: errors_Wrap_def)
qed

section \<open>Properties of applyAll\<close>

lemma applyOne_resource:
  assumes "applyOne c rs r replace s = ((action, err, r'), s')"
  shows "GetAPIVersion r' = GetAPIVersion r \<and> GetKind r' = GetKind r
         \<and> GetNamespace r' = GetNamespace r \<and> GetName r' = GetName r
         \<and> GetOwnerReferences r' = GetOwnerReferences r \<and> Object r' = Object r"
  using assms unfolding applyOne_def Let_def SetResourceVersion_def
  by (auto split: if_splits prod.splits sum.splits option.splits)

lemma applyOne_key:
  assumes "applyOne c rs r replace s = ((action, err, r'), s')"
  shows "resourceKey r' = resourceKey r"
    and "isCustomResourceDefinition r' = isCustomResourceDefinition r"
  using applyOne_resource [OF assms]
  by (simp_all add: resourceKey_def GroupVersionKind_def isCustomResourceDefinition_def Let_def)






lemma record_result_action: "st_Action (record_result st action err) = action"
  by (simp add: record_result_def split: option.splits)


subsection \<open>The calls of one invocation\<close>

lemma invocations_append [simp]: "invocations (xs @ ys) = invocations xs @ invocations ys"
  by (induction xs rule: invocations.induct) simp_all

lemma isCRD_SetResourceVersion [simp]:
  "isCustomResourceDefinition (SetResourceVersion r v) = isCustomResourceDefinition r"
  by (simp add: isCustomResourceDefinition_def SetResourceVersion_def)

lemma applyOne_crd_calls:
  assumes "applyOne c rs r False s = ((action, err, r'), s')" "isCustomResourceDefinition r"
  shows "\<exists>evs. calls s' = calls s @ EvApplyOne r False # evs \<and> list_all crdCall evs
           \<and> invocations evs = []"
  using assms unfolding applyOne_def Let_def RESTMapping_def Get_def Create_def Update_def
    Delete_def called_def invoke_def
  by (auto split: if_splits prod.splits sum.splits option.splits)

lemma applyOne_regular_calls:
  assumes "applyOne c rs r replace s = ((action, err, r'), s')" "\<not> isCustomResourceDefinition r"
  shows "\<exists>evs. calls s' = calls s @ EvApplyOne r replace # evs \<and> list_all regularCall evs
           \<and> invocations evs = []"
  using assms unfolding applyOne_def Let_def RESTMapping_def Get_def Create_def Update_def
    Delete_def called_def invoke_def
  by (auto split: if_splits prod.splits sum.splits option.splits)

lemma applyOne_no_replace:
  assumes "applyOne c rs r False s = ((action, err, r'), s')"
  shows "action \<noteq> ResourceActionReplace"
  using assms unfolding applyOne_def Let_def
  by (auto split: if_splits prod.splits sum.splits option.splits)

subsection \<open>The first loop\<close>


lemma applyCRDs_calls:
  assumes "applyCRDs c rs crds visited status s = Return (crds', status', s')"
    and "list_all isCustomResourceDefinition crds"
    and "\<forall>k st. status k = Some st \<longrightarrow> st_Action st \<noteq> ResourceActionReplace"
  shows "(\<exists>evs. calls s' = calls s @ evs \<and> list_all crdCall evs
            \<and> invocations evs = map (\<lambda>r. (r, False)) crds)
         \<and> (\<forall>k st. status' k = Some st \<longrightarrow> st_Action st \<noteq> ResourceActionReplace)"
  using assms
proof (induction crds arbitrary: visited status s)
  case Nil
  then show ?case by simp
next
  case (Cons crd crds)
  from Cons.prems(1) obtain st where st: "status (resourceKey crd) = Some st"
    by (cases "status (resourceKey crd)") auto
  obtain action err crd' s1 where
    one: "applyOne c rs crd False s = ((action, err, crd'), s1)"
    by (cases "applyOne c rs crd False s") auto
  let ?status1 = "status(resourceKey crd \<mapsto> record_result st action err)"
  have run: "applyCRDs c rs crds (visited @ [crd']) ?status1 s1 = Return (crds', status', s')"
    using Cons.prems(1) st one by simp
  have crd: "isCustomResourceDefinition crd" and rest: "list_all isCustomResourceDefinition crds"
    using Cons.prems(2) by simp_all
  have "action \<noteq> ResourceActionReplace"
    using one by (rule applyOne_no_replace)
  then have inv: "\<forall>k st. ?status1 k = Some st \<longrightarrow> st_Action st \<noteq> ResourceActionReplace"
    using Cons.prems(3) by (auto simp: record_result_action)
  from Cons.IH [OF run rest inv]
  obtain evs where evs: "calls s' = calls s1 @ evs" "list_all crdCall evs"
      "invocations evs = map (\<lambda>r. (r, False)) crds"
    and inv': "\<forall>k st. status' k = Some st \<longrightarrow> st_Action st \<noteq> ResourceActionReplace"
    by blast
  from applyOne_crd_calls [OF one crd]
  obtain evs1 where evs1: "calls s1 = calls s @ EvApplyOne crd False # evs1"
      "list_all crdCall evs1" "invocations evs1 = []"
    by blast
  have "calls s' = calls s @ (EvApplyOne crd False # evs1 @ evs)"
    using evs(1) evs1(1) by simp
  moreover have "list_all crdCall (EvApplyOne crd False # evs1 @ evs)"
    using evs(2) evs1(2) crd by simp
  moreover have "invocations (EvApplyOne crd False # evs1 @ evs)
                   = map (\<lambda>r. (r, False)) (crd # crds)"
    using evs(3) evs1(3) by simp
  ultimately show ?case using inv' by blast
qed



subsection \<open>The gate\<close>

lemma crdAvailable_calls: "calls (snd (crdAvailable c crd s)) = calls s"
  by (simp add: crdAvailable_def Let_def split: sum.splits prod.splits)

lemma crdsAvailable_calls: "calls (snd (crdsAvailable c crds s)) = calls s"
proof (induction crds arbitrary: s)
  case Nil
  then show ?case by simp
next
  case (Cons crd crds)
  show ?case
    using Cons.IH crdAvailable_calls [of c crd s]
    by (auto split: prod.splits)
qed

lemma poll_calls:
  assumes "\<And>s. calls (snd (condition s)) = calls s"
  shows "calls (snd (poll n condition s)) = calls s"
proof (induction n arbitrary: s)
  case 0
  then show ?case by simp
next
  case (Suc n)
  show ?case
    using Suc.IH assms [of s] by (auto split: prod.splits option.splits)
qed

lemma poll_outcomes:
  assumes "list_all (\<lambda>outcome. outcome = (False, None)) (outcomes n condition s)"
  shows "fst (poll n condition s) = Some ErrWaitTimeout"
  using assms
proof (induction n arbitrary: s)
  case 0
  then show ?case by simp
next
  case (Suc n)
  obtain outcome s1 where c: "condition s = (outcome, s1)" by (cases "condition s") auto
  with Suc.prems have "outcome = (False, None)"
    and "list_all (\<lambda>outcome. outcome = (False, None)) (outcomes n condition s1)"
    by simp_all
  with c Suc.IH [of s1] show ?case by simp
qed

subsection \<open>The retry loop\<close>

lemma applyPass_calls:
  assumes "applyPass c rs i regulars visited attempted status cur s
             = Return (visited', attempted', status', cur', s')"
    and "list_all (\<lambda>r. \<not> isCustomResourceDefinition r) regulars"
    and "list_all (\<lambda>r. \<not> isCustomResourceDefinition r) visited"
  shows "(\<exists>new evs. attempted' = attempted @ new \<and> calls s' = calls s @ evs
            \<and> list_all regularCall evs \<and> invocations evs = map (\<lambda>r. (r, True)) new)
         \<and> list_all (\<lambda>r. \<not> isCustomResourceDefinition r) visited'"
  using assms
proof (induction regulars arbitrary: visited attempted status cur s)
  case Nil
  then show ?case by simp
next
  case (Cons r regulars)
  from Cons.prems(1) obtain st where st: "status (resourceKey r) = Some st"
    by (cases "status (resourceKey r)") auto
  have r: "\<not> isCustomResourceDefinition r"
    and rest: "list_all (\<lambda>r. \<not> isCustomResourceDefinition r) regulars"
    using Cons.prems(2) by simp_all
  show ?case
  proof (cases "i > 0 \<and> st_Error st = []")
    case True
    then have "applyPass c rs i regulars (visited @ [r]) attempted status cur s
                 = Return (visited', attempted', status', cur', s')"
      using Cons.prems(1) st by simp
    moreover have "list_all (\<lambda>r. \<not> isCustomResourceDefinition r) (visited @ [r])"
      using Cons.prems(3) r by simp
    ultimately show ?thesis using Cons.IH rest by blast
  next
    case False
    obtain action err r' s1 where
      one: "applyOne c rs r True s = ((action, err, r'), s1)"
      by (cases "applyOne c rs r True s") auto
    have run: "applyPass c rs i regulars (visited @ [r']) (attempted @ [r])
                 (status(resourceKey r \<mapsto> record_result st action err))
                 (if err \<noteq> None then cur + 1 else cur) s1
                 = Return (visited', attempted', status', cur', s')"
      using Cons.prems(1) st one False by (cases "i = 0") auto
    have "\<not> isCustomResourceDefinition r'"
      using applyOne_key(2) [OF one] r by simp
    then have "list_all (\<lambda>r. \<not> isCustomResourceDefinition r) (visited @ [r'])"
      using Cons.prems(3) by simp
    from Cons.IH [OF run rest this]
    obtain new evs where new: "attempted' = (attempted @ [r]) @ new"
      and evs: "calls s' = calls s1 @ evs" "list_all regularCall evs"
        "invocations evs = map (\<lambda>r. (r, True)) new"
      and v: "list_all (\<lambda>r. \<not> isCustomResourceDefinition r) visited'"
      by blast
    from applyOne_regular_calls [OF one r]
    obtain evs1 where evs1: "calls s1 = calls s @ EvApplyOne r True # evs1"
        "list_all regularCall evs1" "invocations evs1 = []"
      by blast
    have "attempted' = attempted @ (r # new)" using new by simp
    moreover have "calls s' = calls s @ (EvApplyOne r True # evs1 @ evs)"
      using evs(1) evs1(1) by simp
    moreover have "list_all regularCall (EvApplyOne r True # evs1 @ evs)"
      using evs(2) evs1(2) r by simp
    moreover have "invocations (EvApplyOne r True # evs1 @ evs) = map (\<lambda>r. (r, True)) (r # new)"
      using evs(3) evs1(3) by simp
    ultimately show ?thesis using v by blast
  qed
qed


lemma applyLoop_calls:
  assumes "applyLoop c rs i prev regulars status passes s = Return a"
    and "list_all (\<lambda>r. \<not> isCustomResourceDefinition r) regulars"
  shows "\<exists>new evs. ap_passes a = passes @ new \<and> calls (ap_state a) = calls s @ evs
           \<and> list_all regularCall evs
           \<and> invocations evs
               = concat (map (\<lambda>p. map (\<lambda>r. (r, True)) (pass_attempted p)) new)"
  using assms
proof (induction "10 - i" arbitrary: i prev regulars status passes s)
  case 0
  then have "\<not> i < 10" by simp
  with 0(2) have "ap_state a = s" "ap_passes a = passes"
    by (subst (asm) applyLoop.simps; auto)+
  then show ?case by simp
next
  case (Suc n)
  then have i: "i < 10" by simp
  from Suc.prems(1) i obtain regulars' attempted status' cur s1 where
    run: "applyPass c rs i regulars [] [] status 0 s
            = Return (regulars', attempted, status', cur, s1)"
    by (subst (asm) applyLoop.simps) (auto split: go.splits)
  define p where
    "p = \<lparr>pass_attempted = attempted, pass_failures = cur, pass_status = status'\<rparr>"
  from applyPass_calls [OF run Suc.prems(2)]
  obtain evs1 where evs1: "calls s1 = calls s @ evs1" "list_all regularCall evs1"
      "invocations evs1 = map (\<lambda>r. (r, True)) attempted"
    and v: "list_all (\<lambda>r. \<not> isCustomResourceDefinition r) regulars'"
    by auto
  show ?case
  proof (cases "cur = 0 \<or> cur = prev")
    case True
    with Suc.prems(1) i run have "ap_state a = s1" "ap_passes a = passes @ [p]"
      by (subst (asm) applyLoop.simps; auto simp: Let_def p_def)+
    moreover have "invocations evs1
             = concat (map (\<lambda>p. map (\<lambda>r. (r, True)) (pass_attempted p)) [p])"
      using evs1(3) by (simp add: p_def)
    ultimately show ?thesis using evs1 by blast
  next
    case False
    with Suc.prems(1) i run
    have next_run: "applyLoop c rs (i + 1) cur regulars' status' (passes @ [p]) s1 = Return a"
      by (subst (asm) applyLoop.simps) (auto simp: Let_def p_def)
    have n: "n = 10 - (i + 1)" using Suc.hyps(2) by simp
    from Suc.hyps(1) [OF n next_run v]
    obtain new evs where new: "ap_passes a = (passes @ [p]) @ new"
      and evs: "calls (ap_state a) = calls s1 @ evs" "list_all regularCall evs"
        "invocations evs = concat (map (\<lambda>p. map (\<lambda>r. (r, True)) (pass_attempted p)) new)"
      by blast
    have "ap_passes a = passes @ (p # new)" using new by simp
    moreover have "calls (ap_state a) = calls s @ (evs1 @ evs)"
      using evs(1) evs1(1) by simp
    moreover have "list_all regularCall (evs1 @ evs)"
      using evs(2) evs1(2) by simp
    moreover have "invocations (evs1 @ evs)
        = concat (map (\<lambda>p. map (\<lambda>r. (r, True)) (pass_attempted p)) (p # new))"
      using evs(3) evs1(3) by (simp add: p_def)
    ultimately show ?thesis by blast
  qed
qed


lemma initStatus_actions:
  assumes "\<forall>k st. m k = Some st \<longrightarrow> st_Action st \<noteq> ResourceActionReplace"
  shows "\<forall>k st. initStatus rl m k = Some st \<longrightarrow> st_Action st \<noteq> ResourceActionReplace"
  using assms
proof (induction rl arbitrary: m)
  case Nil
  then show ?case by simp
next
  case (Cons r rl)
  let ?m = "m(resourceKey r \<mapsto>
              \<lparr>st_Namespace = GetNamespace r, st_Name = GetName r,
               st_Action = ResourceActionNone, st_Error = []\<rparr>)"
  have h: "\<forall>k st. ?m k = Some st \<longrightarrow> st_Action st \<noteq> ResourceActionReplace"
    using Cons.prems by auto
  show ?case unfolding initStatus.simps by (rule Cons.IH [OF h])
qed

text \<open>The calls of \<open>applyAll\<close>: those of the first loop, then those of the retry loop, which
  are none when the gate returned an error.\<close>

lemma applyAll_calls:
  assumes "applyAll c rs opts resources s = Return (e, a)"
  shows "\<exists>crdEvs regEvs. calls (ap_state a) = calls s @ crdEvs @ regEvs
           \<and> list_all crdCall crdEvs \<and> list_all regularCall regEvs
           \<and> invocations crdEvs
               = map (\<lambda>r. (r, False)) (filter isCustomResourceDefinition resources)
           \<and> invocations regEvs
               = concat (map (\<lambda>p. map (\<lambda>r. (r, True)) (pass_attempted p)) (ap_passes a))
           \<and> (e \<noteq> None \<longrightarrow> regEvs = [] \<and> ap_passes a = [])"
proof -
  let ?regulars = "filter (\<lambda>r. \<not> isCustomResourceDefinition r) resources"
  let ?crds = "filter isCustomResourceDefinition resources"
  let ?status = "initStatus resources Map.empty"
  from assms obtain crds' status1 s1 where
    crds: "applyCRDs c rs ?crds [] ?status s = Return (crds', status1, s1)"
    by (auto simp: applyAll_def Let_def split: go.splits)
  have init: "\<forall>k st. ?status k = Some st \<longrightarrow> st_Action st \<noteq> ResourceActionReplace"
    by (rule initStatus_actions) simp
  have "list_all isCustomResourceDefinition ?crds" by (simp add: list_all_iff)
  from applyCRDs_calls [OF crds this init]
  obtain crdEvs where c1: "calls s1 = calls s @ crdEvs" "list_all crdCall crdEvs"
    "invocations crdEvs = map (\<lambda>r. (r, False)) ?crds" by blast
  obtain gate s2 where
    poll: "PollImmediate (2 * Second) (2 * Minute) (wait_Polls c) (crdsAvailable c crds') s1 = (gate, s2)"
    by (cases "PollImmediate (2 * Second) (2 * Minute) (wait_Polls c) (crdsAvailable c crds') s1") auto
  have "calls (snd (PollImmediate (2 * Second) (2 * Minute) (wait_Polls c) (crdsAvailable c crds') s1)) = calls s1"
    unfolding PollImmediate_def by (rule poll_calls) (rule crdsAvailable_calls)
  with poll have c2: "calls s2 = calls s1" by simp
  show ?thesis
  proof (cases gate)
    case (Some err)
    with assms crds poll have "ap_state a = s2" "ap_passes a = []"
      by (auto simp: applyAll_def)
    with c1 c2 show ?thesis
      by (intro exI [of _ crdEvs] exI [of _ "[]"]) simp
  next
    case None
    with assms crds poll obtain a0 where
      loop: "applyLoop c rs 0 0 ?regulars status1 [] s2 = Return a0"
      and a: "a = a0\<lparr>ap_resources := crds' @ ap_resources a0\<rparr>" and e: "e = None"
      by (auto simp: applyAll_def split: go.splits)
    have "list_all (\<lambda>r. \<not> isCustomResourceDefinition r) ?regulars" by (simp add: list_all_iff)
    from applyLoop_calls [OF loop this]
    obtain new regEvs where "ap_passes a0 = [] @ new"
      "calls (ap_state a0) = calls s2 @ regEvs" "list_all regularCall regEvs"
      "invocations regEvs = concat (map (\<lambda>p. map (\<lambda>r. (r, True)) (pass_attempted p)) new)"
      by blast
    with c1 c2 a e show ?thesis
      by (intro exI [of _ crdEvs] exI [of _ regEvs]) simp
  qed
qed










text \<open>
  Claim C4. The wait of the gate makes a check at once, one per tick it is served, of which
  at most 60 fit into the two minutes at one every two seconds, and a last one when the
  timeout is over. When every one of these checks finds some CRD not yet available, with no
  error, \<open>applyAll\<close> returns the timeout error wrapped as \<open>wait for CRDs\<close>. And whenever
  \<open>applyAll\<close> returns an error, which can only be that of the wait, the retry loop has not
  run a pass, \<open>applyOne\<close> was invoked on the CRDs and on nothing else, all calls made are
  those of the CRDs, and \<open>Apply\<close>, when its initialization led to this call, returns that
  error with the resource set.
\<close>

theorem C4_gate_timeout:
  "(applyCRDs c rs (filter isCustomResourceDefinition resources) []
        (initStatus resources Map.empty) s = Return (crds', status1, s1)
      \<and> list_all (\<lambda>outcome. outcome = (False, None))
           (outcomes (Suc (Suc (min (wait_Polls c) 60))) (crdsAvailable c crds') s1) \<longrightarrow>
      (\<exists>a. applyAll c rs opts resources s
              = Return (Some (errors_Wrap ErrWaitTimeout ''wait for CRDs''), a)))
   \<and> (applyAll c rs opts resources s = Return (Some err, a) \<longrightarrow>
        ap_passes a = []
        \<and> (\<exists>evs. calls (ap_state a) = calls s @ evs \<and> list_all crdCall evs
              \<and> invocations evs
                  = map (\<lambda>r. (r, False)) (filter isCustomResourceDefinition resources))
        \<and> (\<forall>name given resources0 s0.
              initialize c (optionsFor given name) resources0 s0
                = Return ((rs, resources, None), opts, s) \<longrightarrow>
              Apply c name given resources0 s0 = Return ((rs, Some err), Some a, ap_state a)))"
proof (intro conjI impI)
  assume h: "applyCRDs c rs (filter isCustomResourceDefinition resources) []
        (initStatus resources Map.empty) s = Return (crds', status1, s1)
      \<and> list_all (\<lambda>outcome. outcome = (False, None))
           (outcomes (Suc (Suc (min (wait_Polls c) 60))) (crdsAvailable c crds') s1)"
  have ticks: "2 * Minute div (2 * Second) = 60"
    by (simp add: Second_def Minute_def)
  from h have "fst (poll (Suc (Suc (min (wait_Polls c) 60))) (crdsAvailable c crds') s1)
                 = Some ErrWaitTimeout"
    by (intro poll_outcomes) simp
  then have "fst (PollImmediate (2 * Second) (2 * Minute) (wait_Polls c)
                    (crdsAvailable c crds') s1) = Some ErrWaitTimeout"
    unfolding PollImmediate_def ticks .
  then obtain s2 where
    poll: "PollImmediate (2 * Second) (2 * Minute) (wait_Polls c) (crdsAvailable c crds') s1
             = (Some ErrWaitTimeout, s2)"
    by (cases "PollImmediate (2 * Second) (2 * Minute) (wait_Polls c)
                 (crdsAvailable c crds') s1") auto
  from h poll
  show "\<exists>a. applyAll c rs opts resources s
              = Return (Some (errors_Wrap ErrWaitTimeout ''wait for CRDs''), a)"
    by (simp add: applyAll_def)
next
  assume run: "applyAll c rs opts resources s = Return (Some err, a)"
  from applyAll_calls [OF run]
  obtain crdEvs regEvs where tr: "calls (ap_state a) = calls s @ crdEvs @ regEvs"
    "list_all crdCall crdEvs"
    "invocations crdEvs = map (\<lambda>r. (r, False)) (filter isCustomResourceDefinition resources)"
    "regEvs = []" "ap_passes a = []"
    by auto
  from tr(5) show "ap_passes a = []" .
  from tr show "\<exists>evs. calls (ap_state a) = calls s @ evs \<and> list_all crdCall evs
              \<and> invocations evs
                  = map (\<lambda>r. (r, False)) (filter isCustomResourceDefinition resources)"
    by (intro exI [of _ crdEvs]) simp
  show "\<forall>name given resources0 s0.
              initialize c (optionsFor given name) resources0 s0
                = Return ((rs, resources, None), opts, s) \<longrightarrow>
              Apply c name given resources0 s0 = Return ((rs, Some err), Some a, ap_state a)"
    using run by (simp add: Apply_def optionsFor_def Let_def)
qed

lemma initialize_result:
  assumes "initialize c opts resources s = Return ((rs, resources1, err), opts1, s1)"
  shows "(err = None) = (rs \<noteq> None)"
  using assms unfolding initialize_def Let_def
  by (auto split: go.splits prod.splits option.splits sum.splits)

text \<open>
  Claim C7, as the code has it. When \<open>initialize\<close> fails (the listing for the version, the
  creation of the resource set, an owner reference) \<open>Apply\<close> returns \<open>nil\<close> with the error;
  when it succeeds, \<open>Apply\<close> returns the created resource set with whatever \<open>applyAll\<close>
  returns, error or not.
\<close>

theorem C7_apply_result:
  "(initialize c (optionsFor given name) resources s
      = Return ((rs, resources1, Some err), opts, s1) \<longrightarrow>
      rs = None \<and> Apply c name given resources s = Return ((None, Some err), None, s1))
   \<and> (initialize c (optionsFor given name) resources s
        = Return ((rs, resources1, None), opts, s1)
        \<and> applyAll c rs opts resources1 s1 = Return (e, a) \<longrightarrow>
      (\<exists>created. rs = Some created)
      \<and> Apply c name given resources s = Return ((rs, e), Some a, ap_state a))"
proof (intro conjI impI)
  assume init: "initialize c (optionsFor given name) resources s
      = Return ((rs, resources1, Some err), opts, s1)"
  from initialize_result [OF init] show none: "rs = None" by simp
  from init none show "Apply c name given resources s = Return ((None, Some err), None, s1)"
    by (simp add: Apply_def optionsFor_def Let_def)
next
  assume both: "initialize c (optionsFor given name) resources s
        = Return ((rs, resources1, None), opts, s1)
        \<and> applyAll c rs opts resources1 s1 = Return (e, a)"
  then have init: "initialize c (optionsFor given name) resources s
        = Return ((rs, resources1, None), opts, s1)" by simp
  from initialize_result [OF init] show "\<exists>created. rs = Some created" by simp
  from both show "Apply c name given resources s = Return ((rs, e), Some a, ap_state a)"
    by (simp add: Apply_def optionsFor_def Let_def)
qed

section \<open>Successive reconciliations\<close>

lemma keepsRecords_calls:
  assumes "keepsRecords c records"
  shows "records (snd (mapper_RESTMapping c gk v w)) = records w"
    and "records (snd (client_Get c client n w)) = records w"
    and "records (snd (client_Create c client r w)) = records w"
    and "records (snd (client_Update c client r w)) = records w"
    and "records (snd (client_Delete c client n w)) = records w"
    and "records (discovery_Invalidate c w) = records w"
    and "records (snd (discovery_ServerResourcesForGroupVersion c gv w)) = records w"
  using assms unfolding keepsRecords_def by blast+

lemma applyOne_records:
  assumes "keepsRecords c records"
  shows "records (world (snd (applyOne c rs r replace s))) = records (world s)"
  by (simp add: applyOne_def Let_def RESTMapping_def Get_def Create_def Update_def Delete_def
        called_def invoke_def keepsRecords_calls [OF assms]
      split: prod.splits sum.splits option.splits)

lemma crdAvailable_records:
  assumes "keepsRecords c records"
  shows "records (world (snd (crdAvailable c crd s))) = records (world s)"
proof -
  let ?w = "discovery_Invalidate c (world s)"
  have "records (snd (discovery_ServerResourcesForGroupVersion c gv ?w)) = records (world s)"
    for gv
    by (simp add: keepsRecords_calls [OF assms])
  moreover have "records ?w = records (world s)"
    by (simp add: keepsRecords_calls [OF assms])
  ultimately show ?thesis
    by (auto simp: crdAvailable_def Let_def split: sum.splits prod.splits)
      (metis snd_conv)+
qed

lemma crdsAvailable_records:
  assumes "keepsRecords c records"
  shows "records (world (snd (crdsAvailable c crds s))) = records (world s)"
proof (induction crds arbitrary: s)
  case Nil
  then show ?case by simp
next
  case (Cons crd crds)
  show ?case
    using Cons.IH crdAvailable_records [OF assms, of crd s]
    by (auto split: prod.splits)
qed

lemma poll_records:
  assumes "\<And>s. records (world (snd (condition s))) = records (world s)"
  shows "records (world (snd (poll n condition s))) = records (world s)"
proof (induction n arbitrary: s)
  case 0
  then show ?case by simp
next
  case (Suc n)
  show ?case
    using Suc.IH assms [of s] by (auto split: prod.splits option.splits)
qed

lemma applyCRDs_records:
  assumes "keepsRecords c records"
    and "applyCRDs c rs crds visited status s = Return (crds', status', s')"
  shows "records (world s') = records (world s)"
  using assms(2)
proof (induction crds arbitrary: visited status s)
  case Nil
  then show ?case by simp
next
  case (Cons crd crds)
  from Cons.prems obtain st where st: "status (resourceKey crd) = Some st"
    by (cases "status (resourceKey crd)") auto
  obtain action err crd' s1 where
    one: "applyOne c rs crd False s = ((action, err, crd'), s1)"
    by (cases "applyOne c rs crd False s") auto
  have "applyCRDs c rs crds (visited @ [crd'])
          (status(resourceKey crd \<mapsto> record_result st action err)) s1
          = Return (crds', status', s')"
    using Cons.prems st one by simp
  from Cons.IH [OF this] applyOne_records [OF assms(1), of rs crd False s] one
  show ?case by simp
qed

lemma applyPass_records:
  assumes "keepsRecords c records"
    and "applyPass c rs i regulars visited attempted status cur s
           = Return (visited', attempted', status', cur', s')"
  shows "records (world s') = records (world s)"
  using assms(2)
proof (induction regulars arbitrary: visited attempted status cur s)
  case Nil
  then show ?case by simp
next
  case (Cons r regulars)
  from Cons.prems obtain st where st: "status (resourceKey r) = Some st"
    by (cases "status (resourceKey r)") auto
  show ?case
  proof (cases "i > 0 \<and> st_Error st = []")
    case True
    then have "applyPass c rs i regulars (visited @ [r]) attempted status cur s
                 = Return (visited', attempted', status', cur', s')"
      using Cons.prems st by simp
    from Cons.IH [OF this] show ?thesis .
  next
    case False
    obtain action err r' s1 where
      one: "applyOne c rs r True s = ((action, err, r'), s1)"
      by (cases "applyOne c rs r True s") auto
    have "applyPass c rs i regulars (visited @ [r']) (attempted @ [r])
                 (status(resourceKey r \<mapsto> record_result st action err))
                 (if err \<noteq> None then cur + 1 else cur) s1
                 = Return (visited', attempted', status', cur', s')"
      using Cons.prems st one False by (cases "i = 0") auto
    from Cons.IH [OF this] applyOne_records [OF assms(1), of rs r True s] one
    show ?thesis by simp
  qed
qed

lemma applyLoop_records:
  assumes "keepsRecords c records"
    and "applyLoop c rs i prev regulars status passes s = Return a"
  shows "records (world (ap_state a)) = records (world s)"
  using assms(2)
proof (induction "10 - i" arbitrary: i prev regulars status passes s)
  case 0
  then have "\<not> i < 10" by simp
  with 0(2) have "ap_state a = s"
    by (subst (asm) applyLoop.simps) auto
  then show ?case by simp
next
  case (Suc n)
  then have i: "i < 10" by simp
  from Suc.prems(1) i obtain regulars' attempted status' cur s1 where
    run: "applyPass c rs i regulars [] [] status 0 s
            = Return (regulars', attempted, status', cur, s1)"
    by (subst (asm) applyLoop.simps) (auto split: go.splits)
  note one = applyPass_records [OF assms(1) run]
  show ?case
  proof (cases "cur = 0 \<or> cur = prev")
    case True
    with Suc.prems(1) i run have "ap_state a = s1"
      by (subst (asm) applyLoop.simps) (auto simp: Let_def)
    with one show ?thesis by simp
  next
    case False
    with Suc.prems(1) i run
    have next_run: "applyLoop c rs (i + 1) cur regulars' status'
                 (passes @ [\<lparr>pass_attempted = attempted, pass_failures = cur,
                              pass_status = status'\<rparr>]) s1 = Return a"
      by (subst (asm) applyLoop.simps) (auto simp: Let_def)
    have n: "n = 10 - (i + 1)" using Suc.hyps(2) by simp
    from Suc.hyps(1) [OF n next_run] one show ?thesis by simp
  qed
qed

lemma applyAll_records:
  assumes "keepsRecords c records"
    and "applyAll c rs opts resources s = Return (e, a)"
  shows "records (world (ap_state a)) = records (world s)"
proof -
  let ?regulars = "filter (\<lambda>r. \<not> isCustomResourceDefinition r) resources"
  let ?crds = "filter isCustomResourceDefinition resources"
  let ?status = "initStatus resources Map.empty"
  from assms(2) obtain crds' status1 s1 where
    crds: "applyCRDs c rs ?crds [] ?status s = Return (crds', status1, s1)"
    by (auto simp: applyAll_def Let_def split: go.splits)
  note r1 = applyCRDs_records [OF assms(1) crds]
  obtain gate s2 where
    poll: "PollImmediate (2 * Second) (2 * Minute) (wait_Polls c) (crdsAvailable c crds') s1 = (gate, s2)"
    by (cases "PollImmediate (2 * Second) (2 * Minute) (wait_Polls c) (crdsAvailable c crds') s1") auto
  have "records (world (snd (PollImmediate (2 * Second) (2 * Minute) (wait_Polls c)
          (crdsAvailable c crds') s1))) = records (world s1)"
    unfolding PollImmediate_def
    by (rule poll_records) (rule crdsAvailable_records [OF assms(1)])
  with poll have r2: "records (world s2) = records (world s1)" by simp
  show ?thesis
  proof (cases gate)
    case (Some err)
    with assms(2) crds poll have "ap_state a = s2"
      by (auto simp: applyAll_def)
    with r1 r2 show ?thesis by simp
  next
    case None
    with assms(2) crds poll obtain a0 where
      loop: "applyLoop c rs 0 0 ?regulars status1 [] s2 = Return a0"
      and a: "a = a0\<lparr>ap_resources := crds' @ ap_resources a0\<rparr>"
      by (auto simp: applyAll_def split: go.splits)
    from applyLoop_records [OF assms(1) loop] a r1 r2 show ?thesis by simp
  qed
qed

lemma initialize_success:
  assumes "initialize c opts resources s = Return ((Some rs, resources1, err), opts1, s1)"
  shows "\<exists>v sl rs0. synk_next c (opt_name opts) s = Return ((v, None), sl)
           \<and> createResourceSet c rs0 sl = (Inr rs, s1)
           \<and> rs_Name rs0 = resourceSetName (opt_name opts) v"
proof -
  from assms obtain v sl where
    nx: "synk_next c (opt_name opts) s = Return ((v, None), sl)"
    unfolding initialize_def Let_def
    by (auto split: go.splits prod.splits option.splits sum.splits)
  define rs0 where
    "rs0 = \<lparr>rs_Kind = [], rs_APIVersion = [],
            rs_Name = resourceSetName (opt_name opts) v,
            rs_UID = [], rs_Labels = [(''name'', opt_name opts)],
            rs_Resources = groupResources (sortResources (sort_ties c) (nonZero resources)),
            rs_Phase = ResourceSetPhasePending, rs_StartedAt = clock_Now c (world sl)\<rparr>"
  from assms nx have "createResourceSet c rs0 sl = (Inr rs, s1)"
    unfolding initialize_def Let_def rs0_def
    by (auto split: go.splits prod.splits option.splits sum.splits)
  moreover have "rs_Name rs0 = resourceSetName (opt_name opts) v" by (simp add: rs0_def)
  ultimately show ?thesis using nx by blast
qed

lemma createResourceSet_records:
  assumes "recordStore c records" "createResourceSet c rs0 s = (Inr rs, s1)"
  shows "rs_Name rs = rs_Name rs0 \<and> records (world s1) = records (world s) @ [rs_Name rs0]"
proof -
  let ?rs1 = "rs0\<lparr>rs_Kind := ''ResourceSet'',
                  rs_APIVersion := ''apps.cloudrobotics.com/v1alpha1''\<rparr>"
  obtain ans w1 where cr: "client_CreateResourceSet c ?rs1 (world s) = (ans, w1)"
    by (cases "client_CreateResourceSet c ?rs1 (world s)") auto
  from assms(1) have "\<forall>rs w. case client_CreateResourceSet c rs w of
                     (Inl err, w') \<Rightarrow> records w' = records w
                   | (Inr rs', w') \<Rightarrow> rs_Name rs' = rs_Name rs
                       \<and> records w' = records w @ [rs_Name rs]"
    unfolding recordStore_def by (rule conjunct2 [THEN conjunct2])
  from this [THEN spec, of ?rs1, THEN spec, of "world s"]
  have "case client_CreateResourceSet c ?rs1 (world s) of
                     (Inl err, w') \<Rightarrow> records w' = records (world s)
                   | (Inr rs', w') \<Rightarrow> rs_Name rs' = rs_Name ?rs1
                       \<and> records w' = records (world s) @ [rs_Name ?rs1]" .
  moreover from assms(2) cr have "ans = Inr rs" "world s1 = w1"
    by (auto simp: createResourceSet_def called_def Let_def)
  ultimately show ?thesis using cr by simp
qed

lemma List_records:
  assumes "recordStore c records" "List_ResourceSets c s = (ans, sl)"
  shows "records (world sl) = records (world s)"
    and "ans = Inr items \<Longrightarrow> map GetName items = records (world s)"
proof -
  from assms(1) have a: "records (snd (client_List c (world s))) = records (world s)"
    and b: "\<forall>items. fst (client_List c (world s)) = Inr items
              \<longrightarrow> map GetName items = records (world s)"
    unfolding recordStore_def by blast+
  from assms(2) have c: "ans = fst (client_List c (world s))"
    "world sl = snd (client_List c (world s))"
    by (auto simp: List_ResourceSets_def called_def)
  from a c show "records (world sl) = records (world s)" by simp
  from b c show "ans = Inr items \<Longrightarrow> map GetName items = records (world s)" by simp
qed

text \<open>A successful reconciliation takes the version after the greatest one on record and
  leaves a record of that name behind.\<close>

lemma Apply_next_record:
  assumes store: "recordStore c records"
    and base: "baseName \<noteq> []" "list_all inClass baseName"
    and range: "\<forall>n\<in>set (records (world s)). \<forall>b d.
                  namePat_matches n b d \<longrightarrow> int (digitsVal d) \<le> 2 ^ 63 - 1"
    and mx: "Max (insert 0 (set (versionsOf baseName (records (world s))))) = m"
    and m1: "m + 1 < 2 ^ 31"
    and run: "Apply c baseName None resources s = Return ((created, None), a, s')"
  shows "\<exists>rs. created = Some rs
           \<and> rs_Name rs = resourceSetName baseName (of_nat (m + 1))
           \<and> records (world s') = records (world s) @ [rs_Name rs]"
proof -
  let ?opts = "\<lparr>opt_name = baseName, opt_version = 0\<rparr>"
  from store have keeps: "keepsRecords c records" by (simp add: recordStore_def)
  from run obtain resources1 opts1 s1 a0 where
    init: "initialize c ?opts resources s = Return ((created, resources1, None), opts1, s1)"
    and appl: "applyAll c created opts1 resources1 s1 = Return (None, a0)"
    and s': "s' = ap_state a0"
    unfolding Apply_def Let_def
    by (auto split: go.splits prod.splits option.splits)
  from initialize_result [OF init] obtain rs where rs: "created = Some rs" by auto
  from initialize_success [OF init [unfolded rs]]
  obtain v sl rs0 where
    nx: "synk_next c baseName s = Return ((v, None), sl)"
    and cr: "createResourceSet c rs0 sl = (Inr rs, s1)"
    and name0: "rs_Name rs0 = resourceSetName baseName v"
    by auto
  obtain ans sl' where list: "List_ResourceSets c s = (ans, sl')"
    by (cases "List_ResourceSets c s") auto
  from nx list obtain items where ans: "ans = Inr items"
    by (cases ans) (auto simp: synk_next_def)
  note names = List_records(2) [OF store list ans]
  have small: "\<forall>n\<in>set (records (world s)). \<forall>d.
                 namePat_matches n baseName d \<longrightarrow> digitsVal d < 2 ^ 31 - 1"
    using mx m1 by (intro versions_below [of baseName _ m]) simp_all
  from synk_next_listed(1) [OF list [unfolded ans], of baseName] range small
  have "synk_next c baseName s
          = Return ((of_nat (Max (insert 0 (set (versionsOf baseName (records (world s))))) + 1),
                     None), sl')"
    unfolding names by blast
  with nx mx have v: "v = of_nat (m + 1)" and sl: "sl = sl'" by simp_all
  from createResourceSet_records [OF store cr]
  have n1: "rs_Name rs = rs_Name rs0"
    and r1: "records (world s1) = records (world sl) @ [rs_Name rs0]" by simp_all
  from List_records(1) [OF store list] sl
  have r0: "records (world sl) = records (world s)" by simp
  from applyAll_records [OF keeps appl] s'
  have r2: "records (world s') = records (world s1)" by simp
  from rs n1 name0 v r0 r1 r2 show ?thesis by simp
qed

lemma reconciliations_from:
  assumes store: "recordStore c records"
    and base: "baseName \<noteq> []" "list_all inClass baseName"
    and range: "\<forall>n\<in>set (records (world s)). \<forall>b d.
                  namePat_matches n b d \<longrightarrow> int (digitsVal d) \<le> 2 ^ 63 - 1"
    and mx: "Max (insert 0 (set (versionsOf baseName (records (world s))))) = m"
    and bound: "m + length batches < 2 ^ 31"
    and run: "reconciliations c baseName batches s = Return (results, s')"
    and ok: "\<forall>result\<in>set results. snd result = None"
  shows "map (\<lambda>result. map_option rs_Name (fst result)) results
           = map (\<lambda>k. Some (resourceSetName baseName (of_nat k)))
               [m + 1 ..< m + length batches + 1]"
  using range mx bound run ok
proof (induction batches arbitrary: s m results)
  case Nil
  then show ?case by simp
next
  case (Cons resources batches)
  from Cons.prems(4) obtain result a s1 rest where
    ap: "Apply c baseName None resources s = Return (result, a, s1)"
    and more: "reconciliations c baseName batches s1 = Return (rest, s')"
    and results: "results = result # rest"
    by (auto split: go.splits prod.splits)
  from Cons.prems(5) results obtain created where result: "result = (created, None)"
    by (cases result) auto
  have m1: "m + 1 < 2 ^ 31" using Cons.prems(3) by simp
  from Apply_next_record [OF store base Cons.prems(1,2) m1 ap [unfolded result]]
  obtain rs where created: "created = Some rs"
    and name: "rs_Name rs = resourceSetName baseName (of_nat (m + 1))"
    and recs: "records (world s1) = records (world s) @ [rs_Name rs]"
    by blast
  note after = versions_after_create [OF base Cons.prems(1,2) m1]
  have range1: "\<forall>n\<in>set (records (world s1)). \<forall>b d.
                  namePat_matches n b d \<longrightarrow> int (digitsVal d) \<le> 2 ^ 63 - 1"
    unfolding recs name by (rule after(2))
  have mx1: "Max (insert 0 (set (versionsOf baseName (records (world s1))))) = m + 1"
    unfolding recs name by (rule after(1))
  have bound1: "m + 1 + length batches < 2 ^ 31" using Cons.prems(3) by simp
  have ok1: "\<forall>result\<in>set rest. snd result = None" using Cons.prems(5) results by simp
  from Cons.IH [OF range1 mx1 bound1 more ok1]
  have rest: "map (\<lambda>result. map_option rs_Name (fst result)) rest
           = map (\<lambda>k. Some (resourceSetName baseName (of_nat k)))
               [m + 1 + 1 ..< m + 1 + length batches + 1]" .
  have e1: "m + length (resources # batches) + 1 = Suc (m + 1 + length batches)"
    and e2: "m + 1 + 1 = Suc (m + 1)"
    and e3: "m + 1 + length batches + 1 = Suc (m + 1 + length batches)"
    by simp_all
  have upt: "[m + 1 ..< m + length (resources # batches) + 1]
               = (m + 1) # [m + 1 + 1 ..< m + 1 + length batches + 1]"
    unfolding e1 e2 e3 by (rule upt_conv_Cons) simp
  show ?case
    unfolding upt results using rest result created name by simp
qed

text \<open>
  Claim C6, as the code has it. A failing listing makes \<open>next\<close> return the wrapped list
  error, with version 0. For a listing in which the digits of every name that matches the
  pattern denote a number up to \<open>2^63 - 1\<close>, and those of every name that decodes to the
  base name a number below \<open>2^31 - 1\<close>, \<open>next\<close> returns the greatest version among the
  records that decode to the base name plus one, or 1 when there is none; names that do not
  match are passed over. Then let a caller run \<open>Apply\<close> \<open>N < 2^31\<close> times in a row under a
  base name matching \<open>[a-z0-9]+\<close>, on a cluster that keeps the records with no other writer
  and holds no record of that name at the start: when every call returns without error, the
  resource sets returned are named by the versions \<open>1, \<dots>, N\<close> in this order.
\<close>

theorem C6_next_version:
  "(List_ResourceSets c s = (Inl err, s1) \<longrightarrow>
      synk_next c baseName s =
        Return ((0, Some (errors_Wrap (Error err) ''list existing ResourceSets'')), s1))
   \<and> (List_ResourceSets c s = (Inr items, s1)
        \<and> (\<forall>n\<in>set (map GetName items). \<forall>b d.
              namePat_matches n b d \<longrightarrow> int (digitsVal d) \<le> 2 ^ 63 - 1)
        \<and> (\<forall>n\<in>set (map GetName items). \<forall>d.
              namePat_matches n baseName d \<longrightarrow> digitsVal d < 2 ^ 31 - 1) \<longrightarrow>
      synk_next c baseName s =
        Return ((of_nat (Max (insert 0 (set (versionsOf baseName (map GetName items)))) + 1),
                 None), s1)
      \<and> sint (of_nat (Max (insert 0 (set (versionsOf baseName (map GetName items)))) + 1)
                 :: int32)
          = int (Max (insert 0 (set (versionsOf baseName (map GetName items))))) + 1)
   \<and> (recordStore c records \<and> baseName \<noteq> [] \<and> list_all inClass baseName
        \<and> length batches < 2 ^ 31
        \<and> (\<forall>n\<in>set (records (world s)). \<forall>b d.
              namePat_matches n b d \<longrightarrow> int (digitsVal d) \<le> 2 ^ 63 - 1)
        \<and> versionsOf baseName (records (world s)) = []
        \<and> reconciliations c baseName batches s = Return (results, s2)
        \<and> (\<forall>result\<in>set results. snd result = None) \<longrightarrow>
      map (\<lambda>result. map_option rs_Name (fst result)) results
        = map (\<lambda>k. Some (resourceSetName baseName (of_nat k))) [1 ..< length batches + 1])"
proof (intro conjI impI)
  assume "List_ResourceSets c s = (Inl err, s1)"
  then show "synk_next c baseName s =
        Return ((0, Some (errors_Wrap (Error err) ''list existing ResourceSets'')), s1)"
    by (rule synk_next_list_fails)
next
  assume a: "List_ResourceSets c s = (Inr items, s1)
        \<and> (\<forall>n\<in>set (map GetName items). \<forall>b d.
              namePat_matches n b d \<longrightarrow> int (digitsVal d) \<le> 2 ^ 63 - 1)
        \<and> (\<forall>n\<in>set (map GetName items). \<forall>d.
              namePat_matches n baseName d \<longrightarrow> digitsVal d < 2 ^ 31 - 1)"
  then show "synk_next c baseName s =
        Return ((of_nat (Max (insert 0 (set (versionsOf baseName (map GetName items)))) + 1),
                 None), s1)"
    using synk_next_listed(1) [of c s items s1 baseName] by blast
  from a show "sint (of_nat (Max (insert 0 (set (versionsOf baseName (map GetName items)))) + 1)
                 :: int32)
          = int (Max (insert 0 (set (versionsOf baseName (map GetName items))))) + 1"
    using synk_next_listed(2) [of c s items s1 baseName] by blast
next
  assume a: "recordStore c records \<and> baseName \<noteq> [] \<and> list_all inClass baseName
        \<and> length batches < 2 ^ 31
        \<and> (\<forall>n\<in>set (records (world s)). \<forall>b d.
              namePat_matches n b d \<longrightarrow> int (digitsVal d) \<le> 2 ^ 63 - 1)
        \<and> versionsOf baseName (records (world s)) = []
        \<and> reconciliations c baseName batches s = Return (results, s2)
        \<and> (\<forall>result\<in>set results. snd result = None)"
  then have store: "recordStore c records"
    and base: "baseName \<noteq> []" "list_all inClass baseName"
    and range: "\<forall>n\<in>set (records (world s)). \<forall>b d.
              namePat_matches n b d \<longrightarrow> int (digitsVal d) \<le> 2 ^ 63 - 1"
    and run: "reconciliations c baseName batches s = Return (results, s2)"
    and ok: "\<forall>result\<in>set results. snd result = None"
    by blast+
  from a have mx: "Max (insert 0 (set (versionsOf baseName (records (world s))))) = 0"
    by simp
  from a have bound: "0 + length batches < 2 ^ 31" by simp
  from reconciliations_from [OF store base range mx bound run ok]
  show "map (\<lambda>result. map_option rs_Name (fst result)) results
        = map (\<lambda>k. Some (resourceSetName baseName (of_nat k))) [1 ..< length batches + 1]"
    by simp
qed

theorem C6_next_version_counterexample:
  "synk_next
     (exampleCluster (Inr [exampleRecord ''app.v2147483648''])
        (\<lambda>n. Inl (ApiError True ''not found'')) Inr []) ''app'' startState
     = Return ((1, None), \<lparr>world = 1, calls = [EvList]\<rparr>)
   \<and> synk_next
       (exampleCluster (Inr [exampleRecord ''app.v2147483647''])
          (\<lambda>n. Inl (ApiError True ''not found'')) Inr []) ''app'' startState
     = Return ((- 2147483648, None), \<lparr>world = 1, calls = [EvList]\<rparr>)
   \<and> sint (- 2147483648 :: int32) = - 2147483648"
  by (simp add: synk_next_def eval_cluster decodeResourceSetName_def strconv_Atoi_def
        eval_pattern)

section \<open>The claims on example runs\<close>

lemma gate_ticks:
  "2 * Minute div (2 * Second) = 60" "(Minute + Minute) div (Second + Second) = 60"
proof -
  show "2 * Minute div (2 * Second) = 60"
    by (simp add: Second_def Minute_def)
  then show "(Minute + Minute) div (Second + Second) = 60"
    by (simp only: mult_2)
qed

lemmas eval_names = decodeResourceSetName_def FindStringSubmatch_def inClass_def isLower_def
  isDigit_def strconv_Atoi_def digitsVal_def digitVal_def resourceSetName_def showInt_def
  showNat.simps digitChar_def

lemmas eval_init = initialize_def optionsFor_def synk_next_def List_ResourceSets_def
  createResourceSet_def setOwnerRef_def SetOwnerReferences_def sortResources_def
  groupResources_def groupKey_def errors_Wrapf_q_def quote_def quoteByte_def hexDigit_def
  exampleCRD_def

lemmas eval_applyAll = applyAll_def applyLoop.simps applyOne_def invoke_def record_result_def
  PollImmediate_def isCustomResourceDefinition_def resourceKey_def GroupVersionKind_def
  exampleCluster_def startState_def exampleConfigMap_def called_def RESTMapping_def Get_def
  Create_def Update_def Delete_def SetResourceVersion_def errors_Wrap_def errors_New_def Let_def
  crdAvailable_def ErrWaitTimeout_def gate_ticks eval_nat_numeral


text \<open>
  Two resources of one key share one entry of the status map. Here the cluster refuses the
  first and accepts the second: after pass 0 the entry holds no error, so no resource has a
  non-empty error, yet the loop counted one failure and runs a second pass, which attempts
  nothing; the resource that failed is not attempted again.
\<close>

theorem C3_shared_key_counterexample:
  "resourceKey ((exampleConfigMap ''a'' [])\<lparr>Object := ''bad''\<rparr>) = ''/v1/ConfigMap/default/a''
   \<and> resourceKey (exampleConfigMap ''a'' []) = ''/v1/ConfigMap/default/a''
   \<and> applyAll rejectingCluster None \<lparr>opt_name = ''app'', opt_version = 1\<rparr>
       [(exampleConfigMap ''a'' [])\<lparr>Object := ''bad''\<rparr>, exampleConfigMap ''a'' []] startState
     = Return (None,
         \<lparr>ap_resources =
            [(exampleConfigMap ''a'' [])\<lparr>Object := ''bad''\<rparr>, exampleConfigMap ''a'' []],
          ap_status =
            [''/v1/ConfigMap/default/a'' \<mapsto>
               \<lparr>st_Namespace = ''default'', st_Name = ''a'',
                st_Action = ResourceActionCreate, st_Error = []\<rparr>],
          ap_passes =
            [\<lparr>pass_attempted =
                [(exampleConfigMap ''a'' [])\<lparr>Object := ''bad''\<rparr>, exampleConfigMap ''a'' []],
              pass_failures = 1,
              pass_status =
                [''/v1/ConfigMap/default/a'' \<mapsto>
                   \<lparr>st_Namespace = ''default'', st_Name = ''a'',
                    st_Action = ResourceActionCreate, st_Error = []\<rparr>]\<rparr>,
             \<lparr>pass_attempted = [], pass_failures = 0,
              pass_status =
                [''/v1/ConfigMap/default/a'' \<mapsto>
                   \<lparr>st_Namespace = ''default'', st_Name = ''a'',
                    st_Action = ResourceActionCreate, st_Error = []\<rparr>]\<rparr>],
          ap_state =
            \<lparr>world = 6,
             calls =
               [EvApplyOne ((exampleConfigMap ''a'' [])\<lparr>Object := ''bad''\<rparr>) True,
                EvRESTMapping ([], ''ConfigMap'') ''v1'',
                EvGet (([], ''v1'', ''things''), Some ''default'') ''a'',
                EvCreate (([], ''v1'', ''things''), Some ''default'')
                  ((exampleConfigMap ''a'' [])\<lparr>Object := ''bad''\<rparr>),
                EvApplyOne (exampleConfigMap ''a'' []) True,
                EvRESTMapping ([], ''ConfigMap'') ''v1'',
                EvGet (([], ''v1'', ''things''), Some ''default'') ''a'',
                EvCreate (([], ''v1'', ''things''), Some ''default'')
                  (exampleConfigMap ''a'' [])]\<rparr>\<rparr>)"
  by (simp add: eval_applyAll rejectingCluster_def)


text \<open>
  The entry of the status map is that of the key. In the first run a regular resource has
  the key of the CRD (kind \<open>CustomResourceDefinition/x\<close>, no namespace, name \<open>y\<close>, against
  namespace \<open>x\<close> and name \<open>/y\<close>): the update of the CRD fails and is recorded, then the
  regular resource is replaced, and the entry ends with the action Replace and no error. In
  the second run two CRDs have one key: the update of the first fails, that of the second
  succeeds, and the entry ends without the error.
\<close>

theorem C5_shared_key_counterexample:
  "applyAll
     (exampleCluster (Inr []) (\<lambda>n. Inr ((exampleCRD n)\<lparr>GetResourceVersion := ''7''\<rparr>))
        (\<lambda>r. Inl (ApiError False ''field is immutable'')) [''widgets''])
     None \<lparr>opt_name = ''app'', opt_version = 1\<rparr>
     [(exampleCRD ''/y'')\<lparr>GetNamespace := ''x''\<rparr>,
      (exampleCRD ''y'')\<lparr>GetKind := ''CustomResourceDefinition/x''\<rparr>] startState
   = Return (None,
       \<lparr>ap_resources =
          [(exampleCRD ''/y'')\<lparr>GetNamespace := ''x'', GetResourceVersion := ''7''\<rparr>,
           (exampleCRD ''y'')\<lparr>GetKind := ''CustomResourceDefinition/x''\<rparr>],
        ap_status =
          [''apiextensions.k8s.io/v1beta1/CustomResourceDefinition/x//y'' \<mapsto>
             \<lparr>st_Namespace = [], st_Name = ''y'', st_Action = ResourceActionReplace,
              st_Error = []\<rparr>],
        ap_passes =
          [\<lparr>pass_attempted = [(exampleCRD ''y'')\<lparr>GetKind := ''CustomResourceDefinition/x''\<rparr>],
            pass_failures = 0,
            pass_status =
              [''apiextensions.k8s.io/v1beta1/CustomResourceDefinition/x//y'' \<mapsto>
                 \<lparr>st_Namespace = [], st_Name = ''y'', st_Action = ResourceActionReplace,
                  st_Error = []\<rparr>]\<rparr>],
        ap_state =
          \<lparr>world = 9,
           calls =
             [EvApplyOne ((exampleCRD ''/y'')\<lparr>GetNamespace := ''x''\<rparr>) False,
              EvRESTMapping (''apiextensions.k8s.io'', ''CustomResourceDefinition'') ''v1beta1'',
              EvGet ((''apiextensions.k8s.io'', ''v1beta1'', ''things''), Some ''x'') ''/y'',
              EvUpdate ((''apiextensions.k8s.io'', ''v1beta1'', ''things''), Some ''x'')
                ((exampleCRD ''/y'')\<lparr>GetNamespace := ''x'', GetResourceVersion := ''7''\<rparr>),
              EvApplyOne ((exampleCRD ''y'')\<lparr>GetKind := ''CustomResourceDefinition/x''\<rparr>) True,
              EvRESTMapping (''apiextensions.k8s.io'', ''CustomResourceDefinition/x'')
                ''v1beta1'',
              EvGet ((''apiextensions.k8s.io'', ''v1beta1'', ''things''), Some []) ''y'',
              EvUpdate ((''apiextensions.k8s.io'', ''v1beta1'', ''things''), Some [])
                ((exampleCRD ''y'')\<lparr>GetKind := ''CustomResourceDefinition/x'',
                                      GetResourceVersion := ''7''\<rparr>),
              EvDelete ((''apiextensions.k8s.io'', ''v1beta1'', ''things''), Some []) ''y'',
              EvCreate ((''apiextensions.k8s.io'', ''v1beta1'', ''things''), Some [])
                ((exampleCRD ''y'')\<lparr>GetKind := ''CustomResourceDefinition/x''\<rparr>)]\<rparr>\<rparr>)
   \<and> applyAll
       (exampleCluster (Inr []) (\<lambda>n. Inr ((exampleCRD n)\<lparr>GetResourceVersion := ''7''\<rparr>))
          (\<lambda>r. if Object r = ''bad'' then Inl (ApiError False ''field is immutable'')
                else Inr r)
          [''widgets''])
       None \<lparr>opt_name = ''app'', opt_version = 1\<rparr>
       [(exampleCRD ''widgets.example.com'')\<lparr>Object := ''bad''\<rparr>,
        exampleCRD ''widgets.example.com''] startState
     = Return (None,
         \<lparr>ap_resources =
            [(exampleCRD ''widgets.example.com'')
               \<lparr>GetResourceVersion := ''7'', Object := ''bad''\<rparr>,
             (exampleCRD ''widgets.example.com'')\<lparr>GetResourceVersion := ''7''\<rparr>],
          ap_status =
            [''apiextensions.k8s.io/v1beta1/CustomResourceDefinition//widgets.example.com''
               \<mapsto>
               \<lparr>st_Namespace = [], st_Name = ''widgets.example.com'',
                st_Action = ResourceActionUpdate, st_Error = []\<rparr>],
          ap_passes =
            [\<lparr>pass_attempted = [], pass_failures = 0,
              pass_status =
                [''apiextensions.k8s.io/v1beta1/CustomResourceDefinition//widgets.example.com''
                   \<mapsto>
                   \<lparr>st_Namespace = [], st_Name = ''widgets.example.com'',
                    st_Action = ResourceActionUpdate, st_Error = []\<rparr>]\<rparr>],
          ap_state =
            \<lparr>world = 8,
             calls =
               [EvApplyOne ((exampleCRD ''widgets.example.com'')\<lparr>Object := ''bad''\<rparr>) False,
                EvRESTMapping (''apiextensions.k8s.io'', ''CustomResourceDefinition'')
                  ''v1beta1'',
                EvGet ((''apiextensions.k8s.io'', ''v1beta1'', ''things''), Some [])
                  ''widgets.example.com'',
                EvUpdate ((''apiextensions.k8s.io'', ''v1beta1'', ''things''), Some [])
                  ((exampleCRD ''widgets.example.com'')
                     \<lparr>GetResourceVersion := ''7'', Object := ''bad''\<rparr>),
                EvApplyOne (exampleCRD ''widgets.example.com'') False,
                EvRESTMapping (''apiextensions.k8s.io'', ''CustomResourceDefinition'')
                  ''v1beta1'',
                EvGet ((''apiextensions.k8s.io'', ''v1beta1'', ''things''), Some [])
                  ''widgets.example.com'',
                EvUpdate ((''apiextensions.k8s.io'', ''v1beta1'', ''things''), Some [])
                  ((exampleCRD ''widgets.example.com'')\<lparr>GetResourceVersion := ''7''\<rparr>)]\<rparr>\<rparr>)"
  by (simp add: eval_applyAll exampleCRD_def)

theorem C4_gate_timeout_witness:
  "\<exists>rs a. Apply (exampleCluster (Inr []) (\<lambda>n. Inl (ApiError True ''not found'')) Inr [])
             ''app'' None
             [Some (exampleCRD ''widgets.example.com''), Some (exampleConfigMap ''a'' [])]
             startState
           = Return ((Some rs, Some ''wait for CRDs: timed out waiting for the condition''),
                     Some a, ap_state a)
     \<and> rs_Name rs = ''app.v1'' \<and> ap_passes a = []
     \<and> (\<exists>evs. calls (ap_state a) = [EvList, EvCreateResourceSet (rs\<lparr>rs_UID := []\<rparr>)] @ evs
               \<and> list_all crdCall evs
               \<and> invocations evs = [(exampleCRD ''widgets.example.com'', False)])"
proof -
  let ?c = "exampleCluster (Inr []) (\<lambda>n. Inl (ApiError True ''not found'')) Inr []"
  let ?crd = "exampleCRD ''widgets.example.com''"
  let ?RS = "\<lparr>rs_Kind = ''ResourceSet'', rs_APIVersion = ''apps.cloudrobotics.com/v1alpha1'',
       rs_Name = ''app.v1'', rs_UID = ''uid-1'', rs_Labels = [(''name'', ''app'')],
       rs_Resources =
         [\<lparr>grp_Group = [], grp_Version = ''v1'', grp_Kind = ''ConfigMap'',
           grp_Items = [\<lparr>ref_Namespace = ''default'', ref_Name = ''a''\<rparr>]\<rparr>,
          \<lparr>grp_Group = ''apiextensions.k8s.io'', grp_Version = ''v1beta1'',
           grp_Kind = ''CustomResourceDefinition'',
           grp_Items = [\<lparr>ref_Namespace = [], ref_Name = ''widgets.example.com''\<rparr>]\<rparr>],
       rs_Phase = ResourceSetPhasePending, rs_StartedAt = 1\<rparr>"
  let ?cm = "exampleConfigMap ''a''
       [\<lparr>or_APIVersion = ''apps.cloudrobotics.com/v1alpha1'', or_Kind = ''Resources'',
         or_Name = ''app.v1'', or_UID = ''uid-1'', or_Controller = None,
         or_BlockOwnerDeletion = Some True\<rparr>]"
  let ?opts = "\<lparr>opt_name = ''app'', opt_version = 1\<rparr>"
  let ?S = "\<lparr>world = 2 :: nat, calls = [EvList, EvCreateResourceSet (?RS\<lparr>rs_UID := []\<rparr>)]\<rparr>"
  let ?err = "errors_Wrap ErrWaitTimeout ''wait for CRDs''"
  have init: "initialize ?c (optionsFor None ''app'')
                [Some ?crd, Some (exampleConfigMap ''a'' [])] startState
                = Return ((Some ?RS, [?cm, ?crd], None), ?opts, ?S)"
    by (simp add: eval_init eval_names eval_applyAll)
  have "\<exists>status1 s1. applyCRDs ?c (Some ?RS) (filter isCustomResourceDefinition [?cm, ?crd]) []
                        (initStatus [?cm, ?crd] Map.empty) ?S = Return ([?crd], status1, s1)
          \<and> list_all (\<lambda>outcome. outcome = (False, None))
               (outcomes (Suc (Suc (min (wait_Polls ?c) 60))) (crdsAvailable ?c [?crd]) s1)"
    by (simp add: eval_init eval_applyAll)
  then obtain status1 s1 where
    crds: "applyCRDs ?c (Some ?RS) (filter isCustomResourceDefinition [?cm, ?crd]) []
             (initStatus [?cm, ?crd] Map.empty) ?S = Return ([?crd], status1, s1)
          \<and> list_all (\<lambda>outcome. outcome = (False, None))
               (outcomes (Suc (Suc (min (wait_Polls ?c) 60))) (crdsAvailable ?c [?crd]) s1)"
    by blast
  from C4_gate_timeout
      [where c = ?c and rs = "Some ?RS" and resources = "[?cm, ?crd]" and crds' = "[?crd]"
         and ?status1.0 = status1 and ?s1.0 = s1 and s = ?S and opts = ?opts] crds
  obtain a where run: "applyAll ?c (Some ?RS) ?opts [?cm, ?crd] ?S = Return (Some ?err, a)"
    by blast
  from C4_gate_timeout
      [where c = ?c and rs = "Some ?RS" and resources = "[?cm, ?crd]" and s = ?S
         and opts = ?opts and err = ?err and a = a] run
  have passes: "ap_passes a = []"
    and evs: "\<exists>evs. calls (ap_state a) = calls ?S @ evs \<and> list_all crdCall evs
                \<and> invocations evs
                    = map (\<lambda>r. (r, False)) (filter isCustomResourceDefinition [?cm, ?crd])"
    and app: "\<forall>name given resources0 s0.
                 initialize ?c (optionsFor given name) resources0 s0
                   = Return ((Some ?RS, [?cm, ?crd], None), ?opts, ?S) \<longrightarrow>
                 Apply ?c name given resources0 s0
                   = Return ((Some ?RS, Some ?err), Some a, ap_state a)"
    by blast+
  from app init
  have "Apply ?c ''app'' None [Some ?crd, Some (exampleConfigMap ''a'' [])] startState
          = Return ((Some ?RS, Some ?err), Some a, ap_state a)"
    by blast
  then have run': "Apply ?c ''app'' None [Some ?crd, Some (exampleConfigMap ''a'' [])] startState
          = Return ((Some ?RS, Some ''wait for CRDs: timed out waiting for the condition''),
                    Some a, ap_state a)"
    by (simp add: errors_Wrap_def ErrWaitTimeout_def)
  have name: "rs_Name ?RS = ''app.v1''" by simp
  have only: "filter isCustomResourceDefinition [?cm, ?crd] = [?crd]"
    by (simp add: isCustomResourceDefinition_def exampleCRD_def exampleConfigMap_def)
  from evs have evs': "\<exists>evs. calls (ap_state a)
                 = [EvList, EvCreateResourceSet (?RS\<lparr>rs_UID := []\<rparr>)] @ evs
               \<and> list_all crdCall evs \<and> invocations evs = [(?crd, False)]"
    unfolding only by simp
  show ?thesis
    using run' name passes evs' by (intro exI [of _ ?RS] exI [of _ a] conjI)
qed

lemma recordStore_storeCluster: "recordStore storeCluster (\<lambda>w. w)"
  by (simp add: recordStore_def keepsRecords_def storeCluster_def exampleRecord_def comp_def)

lemmas eval_store = applyAll_def applyLoop.simps applyOne_def invoke_def record_result_def
  PollImmediate_def isCustomResourceDefinition_def resourceKey_def GroupVersionKind_def
  storeCluster_def exampleConfigMap_def exampleRecord_def called_def RESTMapping_def Get_def
  Create_def Update_def Delete_def SetResourceVersion_def errors_Wrap_def errors_New_def Let_def
  crdAvailable_def ErrWaitTimeout_def gate_ticks eval_nat_numeral Apply_def

theorem C6_next_version_witness:
  "synk_next
     (exampleCluster
        (Inr [exampleRecord ''app.v1'', exampleRecord ''other'', exampleRecord ''app.v3'',
              exampleRecord ''web.v9''])
        (\<lambda>n. Inl (ApiError True ''not found'')) Inr []) ''app'' startState
     = Return ((4, None), \<lparr>world = 1, calls = [EvList]\<rparr>)
   \<and> synk_next
       (exampleCluster (Inl (ApiError False ''refused''))
          (\<lambda>n. Inl (ApiError True ''not found'')) Inr []) ''app'' startState
     = Return ((0, Some ''list existing ResourceSets: refused''), \<lparr>world = 1, calls = [EvList]\<rparr>)
   \<and> (\<exists>results s2.
         reconciliations storeCluster ''app''
           [[Some (exampleConfigMap ''a'' [])], [], [None]]
           \<lparr>world = [''web.v9'', ''other''], calls = []\<rparr> = Return (results, s2)
         \<and> map snd results = [None, None, None]
         \<and> map (\<lambda>result. map_option rs_Name (fst result)) results
             = [Some ''app.v1'', Some ''app.v2'', Some ''app.v3''])"
proof -
  let ?items = "[exampleRecord ''app.v1'', exampleRecord ''other'', exampleRecord ''app.v3'',
              exampleRecord ''web.v9'']"
  let ?c = "exampleCluster (Inr ?items) (\<lambda>n. Inl (ApiError True ''not found'')) Inr []"
  let ?d = "exampleCluster (Inl (ApiError False ''refused''))
          (\<lambda>n. Inl (ApiError True ''not found'')) Inr []"
  let ?batches = "[[Some (exampleConfigMap ''a'' [])], [], [None]]"
  let ?s0 = "\<lparr>world = [''web.v9'', ''other''], calls = []\<rparr>"
  have list: "List_ResourceSets ?c startState = (Inr ?items, \<lparr>world = 1, calls = [EvList]\<rparr>)"
    by (simp add: eval_cluster)
  have fails: "List_ResourceSets ?d startState
                 = (Inl (ApiError False ''refused''), \<lparr>world = 1, calls = [EvList]\<rparr>)"
    by (simp add: eval_cluster)
  have range: "\<forall>n\<in>set (map GetName ?items). \<forall>b d.
                 namePat_matches n b d \<longrightarrow> int (digitsVal d) \<le> 2 ^ 63 - 1"
    by (simp add: exampleRecord_def FindStringSubmatch_iff [symmetric] eval_pattern)
  have small: "\<forall>n\<in>set (map GetName ?items). \<forall>d.
                 namePat_matches n ''app'' d \<longrightarrow> digitsVal d < 2 ^ 31 - 1"
    by (simp add: exampleRecord_def FindStringSubmatch_iff [symmetric] eval_pattern)
  have vs: "versionsOf ''app'' (map GetName ?items) = [1, 3]"
    by (simp add: exampleRecord_def eval_pattern)
  have range2: "\<forall>n\<in>set (world ?s0). \<forall>b d.
                 namePat_matches n b d \<longrightarrow> int (digitsVal d) \<le> 2 ^ 63 - 1"
    by (simp add: FindStringSubmatch_iff [symmetric] eval_pattern)
  have none: "versionsOf ''app'' (world ?s0) = []"
    by (simp add: eval_pattern)
  have base: "''app'' \<noteq> [] \<and> list_all inClass ''app'' \<and> length ?batches < 2 ^ 31"
    by (simp add: inClass_def isLower_def isDigit_def)
  have "case reconciliations storeCluster ''app'' ?batches ?s0 of
          Panic p \<Rightarrow> False
        | Return (results, s2) \<Rightarrow> map snd results = [None, None, None]"
    by (simp add: eval_init eval_names eval_store)
  then obtain results s2 where
    run: "reconciliations storeCluster ''app'' ?batches ?s0 = Return (results, s2)"
    and ok: "map snd results = [None, None, None]"
    by (auto split: go.splits)
  have "\<forall>x\<in>set (map snd results). x = None" unfolding ok by simp
  then have ok': "\<forall>result\<in>set results. snd result = None" by simp
  have names: "map (\<lambda>k. Some (resourceSetName ''app'' (of_nat k))) [1 ..< length ?batches + 1]
                 = [Some ''app.v1'', Some ''app.v2'', Some ''app.v3'']"
    by (simp add: upt_rec eval_names)
  note inst = C6_next_version [of ?c startState _ "\<lparr>world = 1, calls = [EvList]\<rparr>" "''app''"
                 ?items]
  from inst list range small vs
  have a: "synk_next ?c ''app'' startState = Return ((4, None), \<lparr>world = 1, calls = [EvList]\<rparr>)"
    by simp
  from C6_next_version [of ?d startState "ApiError False ''refused''"
         "\<lparr>world = 1, calls = [EvList]\<rparr>" "''app''"] fails
  have b: "synk_next ?d ''app'' startState
     = Return ((0, Some ''list existing ResourceSets: refused''), \<lparr>world = 1, calls = [EvList]\<rparr>)"
    by (simp add: errors_Wrap_def)
  from C6_next_version
      [where c = storeCluster and records = "\<lambda>w. w" and baseName = "''app''"
         and batches = ?batches and s = ?s0 and results = results and ?s2.0 = s2]
    recordStore_storeCluster base range2 none run ok'
  have "map (\<lambda>result. map_option rs_Name (fst result)) results
          = map (\<lambda>k. Some (resourceSetName ''app'' (of_nat k))) [1 ..< length ?batches + 1]"
    by blast
  then have c: "map (\<lambda>result. map_option rs_Name (fst result)) results
          = [Some ''app.v1'', Some ''app.v2'', Some ''app.v3'']"
    unfolding names .
  from run ok c have "\<exists>results s2.
         reconciliations storeCluster ''app'' ?batches ?s0 = Return (results, s2)
         \<and> map snd results = [None, None, None]
         \<and> map (\<lambda>result. map_option rs_Name (fst result)) results
             = [Some ''app.v1'', Some ''app.v2'', Some ''app.v3'']"
    by (intro exI [of _ results] exI [of _ s2] conjI)
  with a b show ?thesis by (intro conjI)
qed

theorem C7_apply_result_witness:
  "Apply (exampleCluster (Inl (ApiError False ''refused''))
            (\<lambda>n. Inl (ApiError True ''not found'')) Inr [])
     ''app'' None [Some (exampleConfigMap ''a'' [])] startState
   = Return ((None, Some ''get next ResourceSet version: list existing ResourceSets: refused''),
             None, \<lparr>world = 1, calls = [EvList]\<rparr>)
   \<and> (\<exists>rs a. Apply (exampleCluster (Inr []) (\<lambda>n. Inl (ApiError True ''not found'')) Inr [])
                 ''app'' None [Some (exampleCRD ''widgets.example.com'')] startState
               = Return ((Some rs, Some ''wait for CRDs: timed out waiting for the condition''),
                         Some a, ap_state a)
         \<and> rs_Name rs = ''app.v1'')"
proof -
  let ?d = "exampleCluster (Inl (ApiError False ''refused''))
              (\<lambda>n. Inl (ApiError True ''not found'')) Inr []"
  let ?c = "exampleCluster (Inr []) (\<lambda>n. Inl (ApiError True ''not found'')) Inr []"
  let ?crd = "exampleCRD ''widgets.example.com''"
  let ?err = "''get next ResourceSet version: list existing ResourceSets: refused''"
  let ?S1 = "\<lparr>world = 1 :: nat, calls = [EvList]\<rparr>"
  let ?RS = "\<lparr>rs_Kind = ''ResourceSet'', rs_APIVersion = ''apps.cloudrobotics.com/v1alpha1'',
       rs_Name = ''app.v1'', rs_UID = ''uid-1'', rs_Labels = [(''name'', ''app'')],
       rs_Resources =
         [\<lparr>grp_Group = ''apiextensions.k8s.io'', grp_Version = ''v1beta1'',
           grp_Kind = ''CustomResourceDefinition'',
           grp_Items = [\<lparr>ref_Namespace = [], ref_Name = ''widgets.example.com''\<rparr>]\<rparr>],
       rs_Phase = ResourceSetPhasePending, rs_StartedAt = 1\<rparr>"
  let ?opts = "\<lparr>opt_name = ''app'', opt_version = 1\<rparr>"
  let ?S = "\<lparr>world = 2 :: nat, calls = [EvList, EvCreateResourceSet (?RS\<lparr>rs_UID := []\<rparr>)]\<rparr>"
  have fail: "initialize ?d (optionsFor None ''app'') [Some (exampleConfigMap ''a'' [])]
                startState
                = Return ((None, [], Some ?err), \<lparr>opt_name = ''app'', opt_version = 0\<rparr>, ?S1)"
    by (simp add: eval_init eval_names eval_applyAll)
  from C7_apply_result [of ?d None "''app''" "[Some (exampleConfigMap ''a'' [])]" startState
         None "[]" ?err "\<lparr>opt_name = ''app'', opt_version = 0\<rparr>" ?S1] fail
  have a: "Apply ?d ''app'' None [Some (exampleConfigMap ''a'' [])] startState
             = Return ((None, Some ?err), None, ?S1)"
    by blast
  have init: "initialize ?c (optionsFor None ''app'') [Some ?crd] startState
                = Return ((Some ?RS, [?crd], None), ?opts, ?S)"
    by (simp add: eval_init eval_names eval_applyAll)
  have "\<exists>a. applyAll ?c (Some ?RS) ?opts [?crd] ?S
               = Return (Some ''wait for CRDs: timed out waiting for the condition'', a)"
    by (simp add: eval_init eval_applyAll)
  then obtain r where
    run: "applyAll ?c (Some ?RS) ?opts [?crd] ?S
            = Return (Some ''wait for CRDs: timed out waiting for the condition'', r)"
    by blast
  from C7_apply_result [of ?c None "''app''" "[Some ?crd]" startState "Some ?RS" "[?crd]" _
         ?opts ?S "Some ''wait for CRDs: timed out waiting for the condition''" r] init run
  have b: "Apply ?c ''app'' None [Some ?crd] startState
             = Return ((Some ?RS, Some ''wait for CRDs: timed out waiting for the condition''),
                       Some r, ap_state r)"
    by blast
  have name: "rs_Name ?RS = ''app.v1''" by simp
  have "\<exists>rs a. Apply ?c ''app'' None [Some ?crd] startState
               = Return ((Some rs, Some ''wait for CRDs: timed out waiting for the condition''),
                         Some a, ap_state a)
         \<and> rs_Name rs = ''app.v1''"
    using b name by (intro exI [of _ ?RS] exI [of _ r] conjI)
  with a show ?thesis by (intro conjI)
qed

theorem C7_apply_returns_nil_counterexample:
  "Apply (exampleCluster (Inl (ApiError False ''refused''))
            (\<lambda>n. Inl (ApiError True ''not found'')) Inr [])
     ''app'' None [Some (exampleConfigMap ''a'' [])] startState
   = Return ((None, Some ''get next ResourceSet version: list existing ResourceSets: refused''),
             None, \<lparr>world = 1, calls = [EvList]\<rparr>)"
  by (simp add: Apply_def eval_init eval_names eval_applyAll)


end
